theory Spec2Isabelle
  imports Complex_Main
begin

section \<open>Values, errors and the object store\<close>

text \<open>
  Every failure of the library is a JavaScript \<^verbatim>\<open>throw new Error(...)\<close>. The model
  keeps one constructor per kind of message:
  \<^item> \<open>InvalidArgument\<close>: the messages starting \<^verbatim>\<open>InvalidArgument:\<close>, \<^verbatim>\<open>Invalid argument:\<close>,
    \<^verbatim>\<open>Invalid inputs specified:\<close> and \<^verbatim>\<open>Invalid parameter chain:\<close>;
  \<^item> \<open>InvalidEntity\<close>: \<^verbatim>\<open>Invalid entity type for entity ...\<close>;
  \<^item> \<open>InvalidSpecifier\<close>: \<^verbatim>\<open>Invalid specifier ... for entity ...\<close>;
  \<^item> \<open>TypeError\<close>: the engine's own error for a property read on \<^verbatim>\<open>null\<close> or
    \<^verbatim>\<open>undefined\<close> and for a call of something that is not a function.
\<close>

datatype error = InvalidArgument | InvalidEntity | InvalidSpecifier | TypeError

type_synonym ref = nat

text \<open>
  The owner of a stream specifier, as far as \<^verbatim>\<open>lib/ffmpeg_stream_specifier.js\<close> reads it:
  its \<^verbatim>\<open>type\<close> property (\<open>None\<close> when it is \<^verbatim>\<open>undefined\<close>), the text its \<^verbatim>\<open>inputLabel\<close>
  renders to in a template literal, and its \<^verbatim>\<open>getOutputPad\<close> method. The classes of the
  owners (\<^verbatim>\<open>FFmpegInput\<close>, \<^verbatim>\<open>FilterChain\<close>) are not part of the sources at hand, so the
  method is a field of the record: what the call returns or raises.
\<close>

record entity =
  etype :: "string option"
  inputLabel :: string
  getOutputPad :: "string \<Rightarrow> error + string"

record stream_specifier =
  entity :: entity
  specifier :: string
  entityType :: "string option"

text \<open>
  The JavaScript values that reach the library. Instances of the three filter classes are
  references into the store; \<open>ObjV\<close> is any other object, with what its \<^verbatim>\<open>toString()\<close>
  returns (\<open>None\<close> when it has no \<^verbatim>\<open>toString\<close> function, as an object made by
  \<^verbatim>\<open>Object.create(null)\<close>).
\<close>

datatype js_value =
    Undefined
  | Null
  | BoolV bool
  | NumV rat
  | StrV string
  | ArrayV "js_value list"
  | MapV "(js_value \<times> js_value) list"
  | GraphV ref
  | ChainV ref
  | NodeV ref
  | SpecV stream_specifier
  | ObjV "string option"

fun instanceof_FilterGraph :: "js_value \<Rightarrow> bool" where
  "instanceof_FilterGraph (GraphV g) = True"
| "instanceof_FilterGraph _ = False"

fun instanceof_FilterChain :: "js_value \<Rightarrow> bool" where
  "instanceof_FilterChain (ChainV c) = True"
| "instanceof_FilterChain _ = False"

fun instanceof_FilterNode :: "js_value \<Rightarrow> bool" where
  "instanceof_FilterNode (NodeV n) = True"
| "instanceof_FilterNode _ = False"

text \<open>
  The store: for every reference the \<^verbatim>\<open>chains\<close> array of the filter graph there, for every
  reference the \<^verbatim>\<open>filterGraph\<close> property of the filter chain there (\<open>None\<close> until a graph
  sets it), and the next unused reference.
\<close>

record heap =
  chains :: "ref \<Rightarrow> ref list"
  filterGraph :: "ref \<Rightarrow> ref option"
  fresh :: ref

definition empty_heap :: heap where
  "empty_heap = \<lparr>chains = (\<lambda>g. []), filterGraph = (\<lambda>c. None), fresh = 0\<rparr>"

section \<open>lib/filter\_graph.js\<close>

text \<open>\<^verbatim>\<open>new FilterGraph()\<close>: a graph at the next unused reference, with \<^verbatim>\<open>chains = []\<close>.\<close>

definition new_FilterGraph :: "heap \<Rightarrow> ref \<times> heap" where
  "new_FilterGraph h = (fresh h, h\<lparr>chains := (chains h)(fresh h := []), fresh := Suc (fresh h)\<rparr>)"

text \<open>The two assignments of \<^verbatim>\<open>addFilterChain\<close>: \<^verbatim>\<open>this.chains.push(chain)\<close> and
  \<^verbatim>\<open>chain.filterGraph = this\<close>.\<close>

definition attach :: "ref \<Rightarrow> ref \<Rightarrow> heap \<Rightarrow> heap" where
  "attach g c h = h\<lparr>chains := (chains h)(g := chains h g @ [c]),
                    filterGraph := (filterGraph h)(c \<mapsto> g)\<rparr>"

fun addFilterChain :: "ref \<Rightarrow> js_value \<Rightarrow> heap \<Rightarrow> error + heap" where
  "addFilterChain g (ChainV c) h = Inr (attach g c h)"
| "addFilterChain g v h = Inl InvalidArgument"

fun join :: "string \<Rightarrow> string list \<Rightarrow> string" where
  "join sep [] = []"
| "join sep [x] = x"
| "join sep (x # y # ys) = x @ sep @ join sep (y # ys)"

text \<open>\<^verbatim>\<open>toString\<close> of a graph; \<open>ts\<close> is the \<^verbatim>\<open>toString()\<close> of the other classes (that of
  \<^verbatim>\<open>FilterChain\<close> here).\<close>

definition FilterGraph_toString :: "(js_value \<Rightarrow> string) \<Rightarrow> heap \<Rightarrow> ref \<Rightarrow> string" where
  "FilterGraph_toString ts h g = join '';'' (map (\<lambda>fc. ts (ChainV fc)) (chains h g))"

text \<open>
  \<^verbatim>\<open>FilterGraph.wrap\<close>. \<^verbatim>\<open>FilterChain.wrap\<close> belongs to \<^verbatim>\<open>lib/filter_chain.js\<close>, which is not
  part of the sources at hand: it is the parameter \<open>cw\<close>, free to allocate, to change the
  store and to raise.
\<close>

type_synonym chain_wrap = "js_value \<Rightarrow> heap \<Rightarrow> error + js_value \<times> heap"

definition wrap :: "chain_wrap \<Rightarrow> js_value \<Rightarrow> heap \<Rightarrow> error + js_value \<times> heap" where
  "wrap cw filterChain h =
     (if instanceof_FilterGraph filterChain then Inr (filterChain, h)
      else if instanceof_FilterChain filterChain \<or> instanceof_FilterNode filterChain then
        (case new_FilterGraph h of (fg, h1) \<Rightarrow>
           (case cw filterChain h1 of
              Inl e \<Rightarrow> Inl e
            | Inr (c, h2) \<Rightarrow>
                (case addFilterChain fg c h2 of
                   Inl e \<Rightarrow> Inl e
                 | Inr h3 \<Rightarrow> Inr (GraphV fg, h3))))
      else Inr (filterChain, h))"

text \<open>A sequence of \<^verbatim>\<open>graph.addFilterChain(value)\<close> calls, each on its own graph; the first
  call that raises ends the sequence.\<close>

fun addFilterChain_calls :: "(ref \<times> js_value) list \<Rightarrow> heap \<Rightarrow> error + heap" where
  "addFilterChain_calls [] h = Inr h"
| "addFilterChain_calls ((g, v) # cs) h =
     (case addFilterChain g v h of Inl e \<Rightarrow> Inl e | Inr h' \<Rightarrow> addFilterChain_calls cs h')"

text \<open>The chains that the calls of a sequence add to the graph \<open>g\<close>, in call order.\<close>

fun added_to :: "ref \<Rightarrow> (ref \<times> js_value) list \<Rightarrow> ref list" where
  "added_to g [] = []"
| "added_to g ((g', ChainV c) # cs) = (if g' = g then c # added_to g cs else added_to g cs)"
| "added_to g ((g', v) # cs) = added_to g cs"

text \<open>The invariant the store keeps: the graph a chain points back to holds that chain.\<close>

definition backrefs_held :: "heap \<Rightarrow> bool" where
  "backrefs_held h = (\<forall>c g. filterGraph h c = Some g \<longrightarrow> c \<in> set (chains h g))"

section \<open>lib/ffmpeg\_option.js\<close>

definition FILTER_OPTIONS :: "string list" where
  "FILTER_OPTIONS =
     [''filter'', ''filter:v'', ''vf'', ''filter:a'', ''af'', ''filter_complex'', ''lavfi'']"

record ffmpeg_option =
  name :: string
  optionName :: string
  arg_opt :: js_value

fun typeof_string :: "js_value \<Rightarrow> bool" where
  "typeof_string (StrV s) = True"
| "typeof_string _ = False"

fun instanceof_Map :: "js_value \<Rightarrow> bool" where
  "instanceof_Map (MapV kvs) = True"
| "instanceof_Map _ = False"

fun isArray :: "js_value \<Rightarrow> bool" where
  "isArray (ArrayV xs) = True"
| "isArray _ = False"

text \<open>\<^verbatim>\<open>arg.toString !== undefined && typeof arg.toString === 'function'\<close>, for a value
  that is neither \<^verbatim>\<open>null\<close> nor \<^verbatim>\<open>undefined\<close>: every primitive and every object inherits
  \<^verbatim>\<open>toString\<close>, but for an object built without it.\<close>

fun has_toString :: "js_value \<Rightarrow> bool" where
  "has_toString Undefined = False"
| "has_toString Null = False"
| "has_toString (ObjV None) = False"
| "has_toString _ = True"

text \<open>\<^verbatim>\<open>validate\<close>. Reading \<^verbatim>\<open>arg.toString\<close> on \<^verbatim>\<open>undefined\<close> is the engine's
  \<open>TypeError\<close>; the constructor never passes \<^verbatim>\<open>undefined\<close> on.\<close>

definition validate :: "string \<Rightarrow> js_value \<Rightarrow> error + bool" where
  "validate nm arg =
     (if \<not> typeof_string arg \<and> arg \<noteq> Null then
        (if instanceof_Map arg \<or> isArray arg then Inl InvalidArgument
         else if arg = Undefined then Inl TypeError
         else if \<not> has_toString arg then Inl InvalidArgument
         else Inr True)
      else Inr True)"

text \<open>The constructor: the default parameter \<^verbatim>\<open>arg = null\<close> replaces \<^verbatim>\<open>undefined\<close>, then
  \<^verbatim>\<open>validate\<close>, then the filter-name rule (\<^verbatim>\<open>&&\<close> calls \<^verbatim>\<open>FilterGraph.wrap\<close> only for a name of
  \<open>FILTER_OPTIONS\<close>), then the three assignments.\<close>

definition FFmpegOption ::
  "chain_wrap \<Rightarrow> string \<Rightarrow> js_value \<Rightarrow> heap \<Rightarrow> error + ffmpeg_option \<times> heap" where
  "FFmpegOption cw nm arg0 h =
     (let arg = (if arg0 = Undefined then Null else arg0) in
      case validate nm arg of
        Inl e \<Rightarrow> Inl e
      | Inr ok \<Rightarrow>
          (case (if nm \<in> set FILTER_OPTIONS
                 then (case wrap cw arg h of
                         Inl e \<Rightarrow> Inl e
                       | Inr (w, h') \<Rightarrow>
                           Inr (if instanceof_FilterGraph w then ''filter_complex'' else nm, h'))
                 else Inr (nm, h)) of
             Inl e \<Rightarrow> Inl e
           | Inr (nm', h') \<Rightarrow>
               Inr (\<lparr>name = nm', optionName = ''-'' @ nm',
                     arg_opt = (if arg = Undefined then Null else arg)\<rparr>, h')))"

text \<open>\<^verbatim>\<open>v.toString()\<close> on a value that has the method: a string is itself, an \<open>ObjV\<close>
  carries its text, and for the rest \<open>ts\<close> is the \<^verbatim>\<open>toString\<close> of the value's own class.\<close>

fun value_toString :: "(js_value \<Rightarrow> string) \<Rightarrow> js_value \<Rightarrow> string" where
  "value_toString ts (StrV s) = s"
| "value_toString ts (ObjV (Some s)) = s"
| "value_toString ts v = ts v"

text \<open>\<^verbatim>\<open>toCommandArray\<close> of an option.\<close>

definition opt_toCommandArray :: "(js_value \<Rightarrow> string) \<Rightarrow> ffmpeg_option \<Rightarrow> string list" where
  "opt_toCommandArray ts opt =
     (if arg_opt opt = Null then [optionName opt]
      else [optionName opt, value_toString ts (arg_opt opt)])"

text \<open>The arguments the filter-name rule is about.\<close>

definition is_filter :: "js_value \<Rightarrow> bool" where
  "is_filter v = (instanceof_FilterGraph v \<or> instanceof_FilterChain v \<or> instanceof_FilterNode v)"

text \<open>\<^verbatim>\<open>FilterChain.wrap\<close> gives back a filter chain (on a chain or a node in this store).\<close>

definition returns_chain :: "chain_wrap \<Rightarrow> js_value \<Rightarrow> heap \<Rightarrow> bool" where
  "returns_chain cw v h =
     (case cw v (snd (new_FilterGraph h)) of
        Inl e \<Rightarrow> False
      | Inr (c, h') \<Rightarrow> instanceof_FilterChain c)"

section \<open>lib/ffmpeg\_stream\_specifier.js\<close>

definition spec_toString :: "stream_specifier \<Rightarrow> error + string" where
  "spec_toString this =
     (if entityType this = Some ''FFmpegInput''
      then Inr (inputLabel (entity this) @ '':'' @ specifier this)
      else if entityType this = Some ''FilterChain''
      then (case getOutputPad (entity this) (specifier this) of
              Inl e \<Rightarrow> Inl e
            | Inr pad \<Rightarrow> Inr (''['' @ pad @ '']''))
      else Inr (specifier this))"

text \<open>The constructor; \<open>spec\<close> is \<^verbatim>\<open>specifier.toString()\<close>. The \<^verbatim>\<open>catch\<close> turns whatever
  \<^verbatim>\<open>toString\<close> raised into the \<^verbatim>\<open>Invalid specifier\<close> error.\<close>

definition FFmpegStreamSpecifier :: "entity \<Rightarrow> string \<Rightarrow> error + stream_specifier" where
  "FFmpegStreamSpecifier ent spec =
     (let this = \<lparr>entity = ent, specifier = spec, entityType = etype ent\<rparr> in
      if entityType this = None then Inl InvalidEntity
      else (case spec_toString this of
              Inl e \<Rightarrow> Inl InvalidSpecifier
            | Inr s \<Rightarrow> Inr this))"

section \<open>lib/ffmpeg\_output.js\<close>

record ffmpeg_output =
  url :: string
  out_options :: "ffmpeg_option list"
  streams :: "js_value list"

text \<open>\<^verbatim>\<open>v.toString()\<close> on any value: a stream specifier has its own, and \<^verbatim>\<open>null\<close>,
  \<^verbatim>\<open>undefined\<close> and an object without the method raise.\<close>

fun js_toString :: "(js_value \<Rightarrow> string) \<Rightarrow> js_value \<Rightarrow> error + string" where
  "js_toString ts (SpecV s) = spec_toString s"
| "js_toString ts Undefined = Inl TypeError"
| "js_toString ts Null = Inl TypeError"
| "js_toString ts (ObjV None) = Inl TypeError"
| "js_toString ts v = Inr (value_toString ts v)"

text \<open>The second \<^verbatim>\<open>forEach\<close> of \<^verbatim>\<open>toCommandArray\<close>, on the array built so far.\<close>

fun map_streams :: "(js_value \<Rightarrow> string) \<Rightarrow> js_value list \<Rightarrow> string list \<Rightarrow> error + string list" where
  "map_streams ts [] cmd = Inr cmd"
| "map_streams ts (s # ss) cmd =
     (case js_toString ts s of
        Inl e \<Rightarrow> Inl e
      | Inr r \<Rightarrow> map_streams ts ss (cmd @ [''-map'', r]))"

definition out_toCommandArray :: "(js_value \<Rightarrow> string) \<Rightarrow> ffmpeg_output \<Rightarrow> error + string list" where
  "out_toCommandArray ts this =
     (case map_streams ts (streams this)
             (foldl (\<lambda>cmd opt. cmd @ opt_toCommandArray ts opt) [] (out_options this)) of
        Inl e \<Rightarrow> Inl e
      | Inr cmd \<Rightarrow> Inr (cmd @ [url this]))"

fun truthy :: "js_value \<Rightarrow> bool" where
  "truthy Undefined = False"
| "truthy Null = False"
| "truthy (BoolV b) = b"
| "truthy (NumV r) = (r \<noteq> 0)"
| "truthy (StrV s) = (s \<noteq> [])"
| "truthy _ = True"

definition js_not :: "js_value \<Rightarrow> js_value" where
  "js_not v = BoolV (\<not> truthy v)"

fun instanceof_FFmpegStreamSpecifier :: "js_value \<Rightarrow> bool" where
  "instanceof_FFmpegStreamSpecifier (SpecV s) = True"
| "instanceof_FFmpegStreamSpecifier _ = False"

text \<open>\<^verbatim>\<open>validateStreams\<close>. JavaScript reads \<^verbatim>\<open>!i instanceof C\<close> as \<^verbatim>\<open>(!i) instanceof C\<close>:
  the negation comes first, and its boolean is what \<^verbatim>\<open>instanceof\<close> tests.\<close>

definition validateStreams :: "js_value \<Rightarrow> error + js_value list" where
  "validateStreams streamSpecifiers =
     (case streamSpecifiers of
        ArrayV xs \<Rightarrow>
          (if list_ex (\<lambda>i. instanceof_FFmpegStreamSpecifier (js_not i)) xs
           then Inl InvalidArgument
           else Inr xs)
      | _ \<Rightarrow> Inl InvalidArgument)"

definition addStreams :: "js_value \<Rightarrow> ffmpeg_output \<Rightarrow> error + ffmpeg_output" where
  "addStreams streamSpecifiers this =
     (case validateStreams streamSpecifiers of
        Inl e \<Rightarrow> Inl e
      | Inr xs \<Rightarrow> Inr (this\<lparr>streams := streams this @ xs\<rparr>))"

definition addStream :: "js_value \<Rightarrow> ffmpeg_output \<Rightarrow> error + ffmpeg_output" where
  "addStream streamSpecifier this = addStreams (ArrayV [streamSpecifier]) this"

section \<open>lib/ffmpeg\_command.js\<close>

text \<open>An input, as far as the command reads it: the \<^verbatim>\<open>inputLabel\<close> that \<^verbatim>\<open>addInput\<close> assigns
  and what its \<^verbatim>\<open>toCommandArray()\<close> returns (\<^verbatim>\<open>lib/ffmpeg_input.js\<close> is not part of the
  sources at hand).\<close>

record ffmpeg_input =
  in_inputLabel :: "nat option"
  in_commandArray :: "string list"

text \<open>The command: \<^verbatim>\<open>options\<close> is the \<^verbatim>\<open>Map\<close> of global options, as its entries in insertion
  order; \<^verbatim>\<open>_filterGraph\<close> is \<open>None\<close> while it is \<^verbatim>\<open>undefined\<close>.\<close>

record ffmpeg_command =
  cmd_options :: "(string \<times> js_value) list"
  cmd_inputs :: "ffmpeg_input list"
  cmd_outputs :: "ffmpeg_output list"
  cmd_filterGraph :: "ref option"

definition FFmpegCommand :: "(string \<times> js_value) list \<Rightarrow> ffmpeg_command" where
  "FFmpegCommand opts =
     \<lparr>cmd_options = opts, cmd_inputs = [], cmd_outputs = [], cmd_filterGraph = None\<rparr>"

definition addInput :: "ffmpeg_input \<Rightarrow> ffmpeg_command \<Rightarrow> ffmpeg_command" where
  "addInput input this =
     this\<lparr>cmd_inputs :=
       cmd_inputs this @ [input\<lparr>in_inputLabel := Some (length (cmd_inputs this))\<rparr>]\<rparr>"

definition addOutput :: "ffmpeg_output \<Rightarrow> ffmpeg_command \<Rightarrow> ffmpeg_command" where
  "addOutput output this = this\<lparr>cmd_outputs := cmd_outputs this @ [output]\<rparr>"

text \<open>\<^verbatim>\<open>addFilterChain\<close> of the command: the graph is made and assigned on the first call,
  then the graph's own \<^verbatim>\<open>addFilterChain\<close> runs. When that raises, the command keeps what
  was assigned before: \<open>Inl\<close> carries the error and the state the call leaves behind.\<close>

definition cmd_addFilterChain ::
  "js_value \<Rightarrow> ffmpeg_command \<Rightarrow> heap \<Rightarrow>
   error \<times> (ffmpeg_command \<times> heap) + ffmpeg_command \<times> heap" where
  "cmd_addFilterChain filterChain this h =
     (case (case cmd_filterGraph this of
              None \<Rightarrow> (case new_FilterGraph h of
                         (fg, h1) \<Rightarrow> (fg, this\<lparr>cmd_filterGraph := Some fg\<rparr>, h1))
            | Some g \<Rightarrow> (g, this, h)) of
        (g, this', h') \<Rightarrow>
          (case addFilterChain g filterChain h' of
             Inl e \<Rightarrow> Inl (e, (this', h'))
           | Inr h'' \<Rightarrow> Inr (this', h'')))"

text \<open>The \<^verbatim>\<open>forEach\<close> over the global options, on the array built so far.\<close>

fun global_args ::
  "(js_value \<Rightarrow> string) \<Rightarrow> (string \<times> js_value) list \<Rightarrow> string list \<Rightarrow> error + string list" where
  "global_args ts [] args = Inr args"
| "global_args ts ((opt, v) # rest) args =
     (if v \<noteq> Null \<and> v \<noteq> Undefined
      then (case js_toString ts v of
              Inl e \<Rightarrow> Inl e
            | Inr s \<Rightarrow> global_args ts rest (args @ [''-'' @ opt] @ [s]))
      else global_args ts rest (args @ [''-'' @ opt]))"

text \<open>The loop over the outputs, on the array built so far.\<close>

fun output_args ::
  "(js_value \<Rightarrow> string) \<Rightarrow> ffmpeg_output list \<Rightarrow> string list \<Rightarrow> error + string list" where
  "output_args ts [] args = Inr args"
| "output_args ts (output # rest) args =
     (case out_toCommandArray ts output of
        Inl e \<Rightarrow> Inl e
      | Inr seg \<Rightarrow> output_args ts rest (args @ seg))"

text \<open>\<^verbatim>\<open>toCommand\<close>: the \<^verbatim>\<open>args\<close> of the object it returns (its \<^verbatim>\<open>command\<close> is the configured
  binary).\<close>

definition toCommand :: "(js_value \<Rightarrow> string) \<Rightarrow> ffmpeg_command \<Rightarrow> heap \<Rightarrow> error + string list" where
  "toCommand ts this h =
     (case global_args ts (cmd_options this) [] of
        Inl e \<Rightarrow> Inl e
      | Inr args0 \<Rightarrow>
          (let args1 = foldl (\<lambda>args input. args @ in_commandArray input) args0 (cmd_inputs this);
               args2 = (case cmd_filterGraph this of
                          None \<Rightarrow> args1
                        | Some g \<Rightarrow> args1 @ [''-filter_complex'', FilterGraph_toString ts h g])
           in output_args ts (cmd_outputs this) args2))"

text \<open>\<^verbatim>\<open>toString\<close> of the command; \<open>createCommandString\<close> (of
  \<^verbatim>\<open>lib/util/command_string_creator.js\<close>) and the configured binary \<open>ffmpeg_bin\<close> are not part
  of the sources at hand.\<close>

definition cmd_toString ::
  "(string \<Rightarrow> string list \<Rightarrow> string) \<Rightarrow> string \<Rightarrow> (js_value \<Rightarrow> string) \<Rightarrow>
   ffmpeg_command \<Rightarrow> heap \<Rightarrow> error + string" where
  "cmd_toString createCommandString ffmpeg_bin ts this h =
     (case toCommand ts this h of
        Inl e \<Rightarrow> Inl e
      | Inr args \<Rightarrow> Inr (createCommandString ffmpeg_bin args))"

text \<open>The calls that build a command, and a run of them from left to right; a call that
  raises ends the run, with the error and the state it leaves behind.\<close>

datatype cmd_call = AddInput ffmpeg_input | AddOutput ffmpeg_output | AddFilterChain js_value

fun call ::
  "cmd_call \<Rightarrow> ffmpeg_command \<times> heap \<Rightarrow>
   error \<times> (ffmpeg_command \<times> heap) + ffmpeg_command \<times> heap" where
  "call (AddInput i) (this, h) = Inr (addInput i this, h)"
| "call (AddOutput out) (this, h) = Inr (addOutput out this, h)"
| "call (AddFilterChain v) (this, h) = cmd_addFilterChain v this h"

fun calls ::
  "cmd_call list \<Rightarrow> ffmpeg_command \<times> heap \<Rightarrow>
   error \<times> (ffmpeg_command \<times> heap) + ffmpeg_command \<times> heap" where
  "calls [] st = Inr st"
| "calls (c # cs) st = (case call c st of Inl e \<Rightarrow> Inl e | Inr st' \<Rightarrow> calls cs st')"

fun added_inputs :: "cmd_call list \<Rightarrow> ffmpeg_input list" where
  "added_inputs [] = []"
| "added_inputs (AddInput i # cs) = i # added_inputs cs"
| "added_inputs (c # cs) = added_inputs cs"

fun added_outputs :: "cmd_call list \<Rightarrow> ffmpeg_output list" where
  "added_outputs [] = []"
| "added_outputs (AddOutput out # cs) = out # added_outputs cs"
| "added_outputs (c # cs) = added_outputs cs"

fun added_chains :: "cmd_call list \<Rightarrow> js_value list" where
  "added_chains [] = []"
| "added_chains (AddFilterChain v # cs) = v # added_chains cs"
| "added_chains (c # cs) = added_chains cs"

section \<open>lib/ffmpeg\_progress\_emitter.js\<close>

text \<open>
  A JavaScript number other than \<^verbatim>\<open>NaN\<close>: a finite double, as the rational it is, with
  \<open>Fin 0\<close> for \<^verbatim>\<open>+0\<close>; \<^verbatim>\<open>-0\<close>; and the two infinities.
\<close>

datatype number = Fin rat | NegZero | PosInf | NegInf

text \<open>The number of binary digits of a positive integer.\<close>

function bits :: "int \<Rightarrow> nat" where
  "bits n = (if n \<le> 0 then 0 else Suc (bits (n div 2)))"
  by pat_completeness auto
termination
  by (relation "measure nat") auto

declare bits.simps [simp del]

definition pow2 :: "int \<Rightarrow> rat" where
  "pow2 e = (if 0 \<le> e then 2 ^ nat e else 1 / 2 ^ nat (- e))"

text \<open>The binary exponent of a positive rational \<open>x\<close>: \<open>pow2 e \<le> x < pow2 (e + 1)\<close>.\<close>

definition ilog2 :: "rat \<Rightarrow> int" where
  "ilog2 x =
     (case quotient_of x of
        (a, b) \<Rightarrow>
          (let k = int (bits a) - int (bits b)
           in if pow2 k \<le> x then k else k - 1))"

definition round_half_even :: "rat \<Rightarrow> int" where
  "round_half_even y =
     (let f = \<lfloor>y\<rfloor>; r = y - of_int f
      in if r < 1 / 2 then f
         else if 1 / 2 < r then f + 1
         else if even f then f else f + 1)"

text \<open>
  The double nearest to a positive rational, ties to the even significand (IEEE 754
  binary64): 53 significant bits for a normal exponent, the fixed spacing \<open>pow2 (- 1074)\<close>
  below \<open>pow2 (- 1022)\<close>, and infinity from \<open>pow2 1024\<close> on.
\<close>

definition round64_pos :: "rat \<Rightarrow> number" where
  "round64_pos x =
     (let e = ilog2 x in
      if 1024 \<le> e then PosInf
      else (let q = pow2 (if e < - 1022 then - 1074 else e - 52);
                r = of_int (round_half_even (x / q)) * q
            in if pow2 1024 \<le> r then PosInf else Fin r))"

fun negate :: "number \<Rightarrow> number" where
  "negate (Fin r) = (if r = 0 then NegZero else Fin (- r))"
| "negate NegZero = Fin 0"
| "negate PosInf = NegInf"
| "negate NegInf = PosInf"

definition round64 :: "rat \<Rightarrow> number" where
  "round64 x =
     (if x = 0 then Fin 0
      else if 0 < x then round64_pos x
      else negate (round64_pos (- x)))"

text \<open>\<^verbatim>\<open>n / 1000\<close>, \<^verbatim>\<open>a === b\<close> and the truth value of numbers.\<close>

fun num_div1000 :: "number \<Rightarrow> number" where
  "num_div1000 (Fin r) = round64 (r / 1000)"
| "num_div1000 NegZero = NegZero"
| "num_div1000 PosInf = PosInf"
| "num_div1000 NegInf = NegInf"

fun is_zero :: "number \<Rightarrow> bool" where
  "is_zero (Fin r) = (r = 0)"
| "is_zero NegZero = True"
| "is_zero _ = False"

definition num_eq :: "number \<Rightarrow> number \<Rightarrow> bool" where
  "num_eq a b = (a = b \<or> (is_zero a \<and> is_zero b))"

definition num_truthy :: "number \<Rightarrow> bool" where
  "num_truthy a = (\<not> is_zero a)"

text \<open>
  A value of a progress field: a number, a string, or what the fix-up's division makes of
  a string: \<open>PQuotient s\<close> is the number JavaScript computes for \<^verbatim>\<open>s / 1000\<close> (\<^verbatim>\<open>NaN\<close> for
  a text that is no numeric literal). Only the fix-up makes one, in the record it commits:
  no pending field is a \<open>PQuotient\<close>.
\<close>

datatype pvalue = PNum number | PStr string | PQuotient string

record log_entry =
  log_text :: string
  log_time :: pvalue

record emitter =
  logBuffer :: "log_entry list"
  progressData :: "string \<rightharpoonup> pvalue"
  partialProgressData :: "string \<rightharpoonup> pvalue"

definition new_emitter :: emitter where
  "new_emitter = \<lparr>logBuffer = [], progressData = Map.empty, partialProgressData = Map.empty\<rparr>"

text \<open>The chunks are ASCII text; these are the characters \<^verbatim>\<open>\s\<close> and \<^verbatim>\<open>trim\<close> take for
  white space there.\<close>

definition is_space :: "char \<Rightarrow> bool" where
  "is_space c = (c \<in> set [CHR 0x09, CHR 0x0A, CHR 0x0B, CHR 0x0C, CHR 0x0D, CHR 0x20])"

definition is_digit :: "char \<Rightarrow> bool" where
  "is_digit c = (c \<in> set ''0123456789'')"

text \<open>\<^verbatim>\<open>/\r$/\<close>\<close>

definition ends_with_cr :: "string \<Rightarrow> bool" where
  "ends_with_cr s = (s \<noteq> [] \<and> last s = CHR 0x0D)"

text \<open>\<^verbatim>\<open>/^[^\s=]+=[^=]+\n$/\<close>: the key is the longest run of characters that are neither
  white space nor \<^verbatim>\<open>=\<close>; after the \<^verbatim>\<open>=\<close> come one or more characters other than \<^verbatim>\<open>=\<close> and
  the closing line feed.\<close>

definition is_field_line :: "string \<Rightarrow> bool" where
  "is_field_line s =
     (let key = takeWhile (\<lambda>c. \<not> is_space c \<and> c \<noteq> CHR ''='') s;
          rest = dropWhile (\<lambda>c. \<not> is_space c \<and> c \<noteq> CHR ''='') s
      in key \<noteq> [] \<and>
         (case rest of
            [] \<Rightarrow> False
          | c # v \<Rightarrow> c = CHR ''='' \<and> CHR ''='' \<notin> set v \<and> 2 \<le> length v \<and> last v = CHR 0x0A))"

definition trim :: "string \<Rightarrow> string" where
  "trim s = rev (dropWhile is_space (rev (dropWhile is_space s)))"

text \<open>\<^verbatim>\<open>s.split(d)\<close> for a separator of one character.\<close>

fun split :: "char \<Rightarrow> string \<Rightarrow> string list" where
  "split d [] = [[]]"
| "split d (c # cs) =
     (if c = d then [] # split d cs
      else (case split d cs of [] \<Rightarrow> [[c]] | x # xs \<Rightarrow> (c # x) # xs))"

text \<open>\<^verbatim>\<open>/^\-?\d+(?:\.\d+)?$/\<close>\<close>

definition numRegExp :: "string \<Rightarrow> bool" where
  "numRegExp s =
     (let u = (case s of [] \<Rightarrow> [] | c # cs \<Rightarrow> if c = CHR ''-'' then cs else s);
          ip = takeWhile is_digit u;
          rest = dropWhile is_digit u
      in ip \<noteq> [] \<and>
         (case rest of
            [] \<Rightarrow> True
          | c # fp \<Rightarrow> c = CHR ''.'' \<and> fp \<noteq> [] \<and> list_all is_digit fp))"

definition digits_value :: "string \<Rightarrow> int" where
  "digits_value ds = foldl (\<lambda>n c. 10 * n + (of_char c - 48)) 0 ds"

text \<open>\<^verbatim>\<open>parseFloat\<close> on a string that \<open>numRegExp\<close> accepts: the double nearest to the
  decimal the string writes, with its sign.\<close>

definition parseFloat :: "string \<Rightarrow> number" where
  "parseFloat s =
     (let neg = (s \<noteq> [] \<and> hd s = CHR ''-'');
          u = (if neg then tl s else s);
          ip = takeWhile is_digit u;
          fp = drop 1 (dropWhile is_digit u);
          m = of_int (digits_value ip) + of_int (digits_value fp) / 10 ^ length fp
      in if neg then negate (round64 m) else round64 m)"

text \<open>\<^verbatim>\<open>obj[key] = value\<close> on a plain object: the key \<^verbatim>\<open>__proto__\<close> is the prototype's
  setter, which ignores a number or a string.\<close>

definition set_field :: "(string \<rightharpoonup> pvalue) \<Rightarrow> string \<Rightarrow> pvalue \<Rightarrow> (string \<rightharpoonup> pvalue)" where
  "set_field obj key v = (if key = ''__proto__'' then obj else obj(key \<mapsto> v))"

text \<open>The truth value of a field read from the pending record (\<open>None\<close> is \<^verbatim>\<open>undefined\<close>),
  \<^verbatim>\<open>===\<close> on two such fields, and \<^verbatim>\<open>field / 1000\<close>.\<close>

fun truthy_field :: "pvalue option \<Rightarrow> bool" where
  "truthy_field None = False"
| "truthy_field (Some (PNum n)) = num_truthy n"
| "truthy_field (Some (PStr s)) = (s \<noteq> [])"
| "truthy_field (Some (PQuotient s)) = False"

fun strict_equal :: "pvalue option \<Rightarrow> pvalue option \<Rightarrow> bool" where
  "strict_equal None None = True"
| "strict_equal (Some (PNum a)) (Some (PNum b)) = num_eq a b"
| "strict_equal (Some (PStr s)) (Some (PStr t)) = (s = t)"
| "strict_equal v w = False"

fun div1000 :: "pvalue option \<Rightarrow> pvalue" where
  "div1000 (Some (PNum n)) = PNum (num_div1000 n)"
| "div1000 (Some (PStr s)) = PQuotient s"
| "div1000 v = PQuotient []"

text \<open>\<^verbatim>\<open>_emitUpdateEvent\<close>: the new state and the \<^verbatim>\<open>update\<close> events emitted.\<close>

definition emitUpdateEvent :: "emitter \<Rightarrow> emitter \<times> (string \<rightharpoonup> pvalue) list" where
  "emitUpdateEvent this =
     (let p = partialProgressData this;
          p' = (if truthy_field (p ''out_time_ms'') \<and> truthy_field (p ''out_time_us'') \<and>
                   strict_equal (p ''out_time_ms'') (p ''out_time_us'')
                then p(''out_time_ms'' \<mapsto> div1000 (p ''out_time_us''))
                else p)
      in (this\<lparr>progressData := p', partialProgressData := Map.empty\<rparr>, [p']))"

text \<open>\<^verbatim>\<open>_parseProgress\<close>. The destructuring takes the first two pieces of the split;
  \<^verbatim>\<open>progressValue.trim()\<close> on a missing second piece is the engine's \<open>TypeError\<close>.\<close>

definition parseProgress ::
  "string \<Rightarrow> emitter \<Rightarrow> error + emitter \<times> (string \<rightharpoonup> pvalue) list" where
  "parseProgress p this =
     (case split CHR ''='' p of
        [] \<Rightarrow> Inl TypeError
      | progressKey # pieces \<Rightarrow>
          if progressKey = ''progress'' then Inr (emitUpdateEvent this)
          else (case pieces of
                  [] \<Rightarrow> Inl TypeError
                | v # others \<Rightarrow>
                    (let progressValue = trim v in
                     Inr (this\<lparr>partialProgressData :=
                            set_field (partialProgressData this) progressKey
                              (if numRegExp progressValue
                               then PNum (parseFloat progressValue)
                               else PStr progressValue)\<rparr>, []))))"

text \<open>\<^verbatim>\<open>lastMediaTime\<close>: \<^verbatim>\<open>this.progressData.hasOwnProperty\<close> is the record's own field of
  that name when it has one, and calling a number or a string is the engine's
  \<open>TypeError\<close>.\<close>

definition lastMediaTime :: "emitter \<Rightarrow> error + pvalue" where
  "lastMediaTime this =
     (if progressData this ''hasOwnProperty'' \<noteq> None then Inl TypeError
      else (case progressData this ''out_time'' of
              Some t \<Rightarrow> Inr t
            | None \<Rightarrow> Inr (PStr ''0'')))"

text \<open>\<^verbatim>\<open>_write\<close>, on the chunk as a string.\<close>

definition write_chunk :: "string \<Rightarrow> emitter \<Rightarrow> error + emitter \<times> (string \<rightharpoonup> pvalue) list" where
  "write_chunk chunkString this =
     (if ends_with_cr chunkString then Inr (this, [])
      else if is_field_line chunkString then parseProgress (trim chunkString) this
      else (case lastMediaTime this of
              Inl e \<Rightarrow> Inl e
            | Inr t \<Rightarrow>
                Inr (this\<lparr>logBuffer := logBuffer this @ [\<lparr>log_text = chunkString, log_time = t\<rparr>]\<rparr>,
                     [])))"

text \<open>Chunk after chunk, with the events of all of them in order.\<close>

fun write_chunks :: "string list \<Rightarrow> emitter \<Rightarrow> error + emitter \<times> (string \<rightharpoonup> pvalue) list" where
  "write_chunks [] this = Inr (this, [])"
| "write_chunks (c # cs) this =
     (case write_chunk c this of
        Inl e \<Rightarrow> Inl e
      | Inr (this', evs) \<Rightarrow>
          (case write_chunks cs this' of
             Inl e \<Rightarrow> Inl e
           | Inr (this'', evs') \<Rightarrow> Inr (this'', evs @ evs')))"

section \<open>Properties\<close>

subsection \<open>Shared facts\<close>

lemma foldl_append_concat: "foldl (\<lambda>acc x. acc @ f x) acc xs = acc @ concat (map f xs)"
  by (induction xs arbitrary: acc) simp_all

lemma wrap_graph: "instanceof_FilterGraph v \<Longrightarrow> wrap cw v h = Inr (v, h)"
  by (simp add: wrap_def)

lemma wrap_other: "\<not> is_filter v \<Longrightarrow> wrap cw v h = Inr (v, h)"
  by (simp add: wrap_def is_filter_def)

lemma wrap_result_graph_or_same:
  "wrap cw x h = Inr (w, h') \<Longrightarrow> instanceof_FilterGraph w \<or> (w = x \<and> h' = h \<and> \<not> instanceof_FilterChain x \<and> \<not> instanceof_FilterNode x)"
  by (auto simp: wrap_def split: if_splits prod.splits sum.splits)

subsection \<open>The command\<close>

lemma global_args_acc:
  "global_args ts opts args =
     (case global_args ts opts [] of Inl e \<Rightarrow> Inl e | Inr gs \<Rightarrow> Inr (args @ gs))"
proof (induction opts arbitrary: args)
  case Nil
  show ?case by simp
next
  case (Cons a opts)
  obtain opt v where a: "a = (opt, v)" by (cases a)
  show ?case
  proof (cases "global_args ts opts []")
    case (Inl e)
    have "global_args ts opts xs = Inl e" for xs
      using Cons.IH[of xs] Inl by simp
    then show ?thesis by (simp add: a split: sum.splits)
  next
    case (Inr gs0)
    have "global_args ts opts xs = Inr (xs @ gs0)" for xs
      using Cons.IH[of xs] Inr by simp
    then show ?thesis by (simp add: a split: sum.splits)
  qed
qed

lemma output_args_closed:
  "list_all2 (\<lambda>out seg. out_toCommandArray ts out = Inr seg) outs segs \<Longrightarrow>
   output_args ts outs args = Inr (args @ concat segs)"
  by (induction outs segs arbitrary: args rule: list_all2_induct) simp_all

lemma added_inputs_Cons: "added_inputs (c # cs) = added_inputs [c] @ added_inputs cs"
  by (cases c) simp_all

lemma added_outputs_Cons: "added_outputs (c # cs) = added_outputs [c] @ added_outputs cs"
  by (cases c) simp_all

lemma added_chains_Cons: "added_chains (c # cs) = added_chains [c] @ added_chains cs"
  by (cases c) simp_all

lemma cmd_addFilterChain_effect:
  assumes "cmd_addFilterChain v this h = Inr (this', h')"
  shows "cmd_options this' = cmd_options this \<and> cmd_inputs this' = cmd_inputs this
         \<and> cmd_outputs this' = cmd_outputs this \<and> cmd_filterGraph this' \<noteq> None"
  using assms
  by (auto simp: cmd_addFilterChain_def new_FilterGraph_def split: option.splits sum.splits)

lemma call_effect:
  assumes "call c (this, h) = Inr (this', h')"
  shows "cmd_options this' = cmd_options this"
    and "map in_commandArray (cmd_inputs this') =
           map in_commandArray (cmd_inputs this) @ map in_commandArray (added_inputs [c])"
    and "cmd_outputs this' = cmd_outputs this @ added_outputs [c]"
    and "(cmd_filterGraph this' = None) = (cmd_filterGraph this = None \<and> added_chains [c] = [])"
proof -
  show "cmd_options this' = cmd_options this"
    using assms by (cases c) (auto simp: addInput_def addOutput_def dest: cmd_addFilterChain_effect)
  show "map in_commandArray (cmd_inputs this') =
           map in_commandArray (cmd_inputs this) @ map in_commandArray (added_inputs [c])"
    using assms by (cases c) (auto simp: addInput_def addOutput_def dest: cmd_addFilterChain_effect)
  show "cmd_outputs this' = cmd_outputs this @ added_outputs [c]"
    using assms by (cases c) (auto simp: addInput_def addOutput_def dest: cmd_addFilterChain_effect)
  show "(cmd_filterGraph this' = None) = (cmd_filterGraph this = None \<and> added_chains [c] = [])"
    using assms by (cases c) (auto simp: addInput_def addOutput_def dest: cmd_addFilterChain_effect)
qed

lemma calls_effect:
  "calls cs (this, h) = Inr (this', h') \<Longrightarrow>
     cmd_options this' = cmd_options this
     \<and> map in_commandArray (cmd_inputs this') =
           map in_commandArray (cmd_inputs this) @ map in_commandArray (added_inputs cs)
     \<and> cmd_outputs this' = cmd_outputs this @ added_outputs cs
     \<and> (cmd_filterGraph this' = None) = (cmd_filterGraph this = None \<and> added_chains cs = [])"
proof (induction cs arbitrary: this h)
  case Nil
  then show ?case by simp
next
  case (Cons c cs)
  from Cons.prems obtain st where st: "call c (this, h) = Inr st" "calls cs st = Inr (this', h')"
    by (auto split: sum.splits)
  obtain this1 h1 where s1: "st = (this1, h1)" by (cases st)
  note e = call_effect[OF st(1)[unfolded s1]]
  note i = Cons.IH[OF st(2)[unfolded s1]]
  show ?case
    using e i
    by (simp add: added_inputs_Cons[of c cs] added_outputs_Cons[of c cs] added_chains_Cons[of c cs])
qed

text \<open>
  For a command built by \<^verbatim>\<open>new FFmpegCommand(opts)\<close> and calls of \<^verbatim>\<open>addInput\<close>, \<^verbatim>\<open>addOutput\<close>
  and \<^verbatim>\<open>addFilterChain\<close> that all return, \<^verbatim>\<open>toCommand()\<close> gives the tokens of the global
  options, then the command array of each input in the order the inputs were added, then
  \<^verbatim>\<open>-filter_complex\<close> and the graph's string exactly when a filter chain was added, then the
  command array of each output in the order the outputs were added.
\<close>

lemma toCommand_tokens_of_calls:
  assumes "calls cs (FFmpegCommand opts, h0) = Inr (this, h)"
      and "global_args ts opts [] = Inr gs"
      and "list_all2 (\<lambda>out seg. out_toCommandArray ts out = Inr seg) (added_outputs cs) segs"
  shows "toCommand ts this h =
           Inr (gs @ concat (map in_commandArray (added_inputs cs))
                   @ (case cmd_filterGraph this of
                        None \<Rightarrow> []
                      | Some g \<Rightarrow> [''-filter_complex'', FilterGraph_toString ts h g])
                   @ concat segs)
         \<and> (cmd_filterGraph this = None) = (added_chains cs = [])
         \<and> cmd_toString createCommandString ffmpeg_bin ts this h =
             Inr (createCommandString ffmpeg_bin
                   (gs @ concat (map in_commandArray (added_inputs cs))
                       @ (case cmd_filterGraph this of
                            None \<Rightarrow> []
                          | Some g \<Rightarrow> [''-filter_complex'', FilterGraph_toString ts h g])
                       @ concat segs))"
proof -
  from calls_effect[OF assms(1)]
  have o: "cmd_options this = opts"
    and i: "map in_commandArray (cmd_inputs this) = map in_commandArray (added_inputs cs)"
    and u: "cmd_outputs this = added_outputs cs"
    and f: "(cmd_filterGraph this = None) = (added_chains cs = [])"
    by (simp_all add: FFmpegCommand_def)
  have c: "concat (map in_commandArray (cmd_inputs this)) = concat (map in_commandArray (added_inputs cs))"
    using i by (rule arg_cong)
  have t: "toCommand ts this h =
           Inr (gs @ concat (map in_commandArray (added_inputs cs))
                   @ (case cmd_filterGraph this of
                        None \<Rightarrow> []
                      | Some g \<Rightarrow> [''-filter_complex'', FilterGraph_toString ts h g])
                   @ concat segs)"
    using assms(2) output_args_closed[OF assms(3)[folded u]] c
    by (simp add: toCommand_def o foldl_append_concat split: option.splits)
  from t f show ?thesis by (simp add: cmd_toString_def)
qed

text \<open>
  C1. \<^verbatim>\<open>addFilterChain\<close> of the command assigns a new graph before the graph's own
  \<^verbatim>\<open>addFilterChain\<close> tests the argument. On a new command, a call with a value that is no
  filter chain raises and leaves that graph behind, with no chain in it; \<^verbatim>\<open>toCommand()\<close>
  on the command then gives \<^verbatim>\<open>-filter_complex\<close> and the empty string, though no filter chain
  was added.
\<close>

theorem rejected_addFilterChain_leaves_graph:
  "calls [AddFilterChain (StrV ''notachain'')] (FFmpegCommand [], empty_heap)
     = Inl (InvalidArgument,
            (\<lparr>cmd_options = [], cmd_inputs = [], cmd_outputs = [], cmd_filterGraph = Some 0\<rparr>,
             snd (new_FilterGraph empty_heap)))
   \<and> chains (snd (new_FilterGraph empty_heap)) 0 = []
   \<and> toCommand (\<lambda>v. [])
        \<lparr>cmd_options = [], cmd_inputs = [], cmd_outputs = [], cmd_filterGraph = Some 0\<rparr>
        (snd (new_FilterGraph empty_heap))
       = Inr [''-filter_complex'', []]"
  by (simp add: FFmpegCommand_def cmd_addFilterChain_def new_FilterGraph_def empty_heap_def
      toCommand_def FilterGraph_toString_def)

subsection \<open>The output\<close>

lemma map_streams_closed:
  "list_all2 (\<lambda>s r. js_toString ts s = Inr r) ss rs \<Longrightarrow>
   map_streams ts ss cmd = Inr (cmd @ concat (map (\<lambda>r. [''-map'', r]) rs))"
  by (induction ss rs arbitrary: cmd rule: list_all2_induct) simp_all

text \<open>
  C2. An output with url \<open>u\<close>, options \<open>os\<close> and streams \<open>ss\<close>, each stream rendering
  to its \<open>r\<close>, renders to the tokens of its options in option order, then one pair
  \<^verbatim>\<open>-map r\<close> per stream in stream order, then the single token \<open>u\<close>. For the streams
  \<open>[s0, s1, s1]\<close> these are exactly three pairs, the repeated specifier rendering the same
  both times.
\<close>

theorem output_tokens_in_order:
  "(list_all2 (\<lambda>s r. js_toString ts s = Inr r) ss rs \<longrightarrow>
      out_toCommandArray ts \<lparr>url = u, out_options = os, streams = ss\<rparr> =
        Inr (concat (map (opt_toCommandArray ts) os) @ concat (map (\<lambda>r. [''-map'', r]) rs) @ [u]))
   \<and> (spec_toString s0 = Inr r0 \<and> spec_toString s1 = Inr r1 \<longrightarrow>
      out_toCommandArray ts \<lparr>url = u, out_options = os, streams = [SpecV s0, SpecV s1, SpecV s1]\<rparr> =
        Inr (concat (map (opt_toCommandArray ts) os) @ [''-map'', r0, ''-map'', r1, ''-map'', r1] @ [u]))"
proof (intro conjI impI)
  assume "list_all2 (\<lambda>s r. js_toString ts s = Inr r) ss rs"
  from map_streams_closed[OF this]
  show "out_toCommandArray ts \<lparr>url = u, out_options = os, streams = ss\<rparr> =
        Inr (concat (map (opt_toCommandArray ts) os) @ concat (map (\<lambda>r. [''-map'', r]) rs) @ [u])"
    by (simp add: out_toCommandArray_def foldl_append_concat)
next
  assume "spec_toString s0 = Inr r0 \<and> spec_toString s1 = Inr r1"
  then have "list_all2 (\<lambda>s r. js_toString ts s = Inr r) [SpecV s0, SpecV s1, SpecV s1] [r0, r1, r1]"
    by simp
  from map_streams_closed[OF this]
  show "out_toCommandArray ts \<lparr>url = u, out_options = os, streams = [SpecV s0, SpecV s1, SpecV s1]\<rparr> =
        Inr (concat (map (opt_toCommandArray ts) os) @ [''-map'', r0, ''-map'', r1, ''-map'', r1] @ [u])"
    by (simp add: out_toCommandArray_def foldl_append_concat)
qed

theorem output_tokens_in_order_witness:
  "spec_toString \<lparr>entity = \<lparr>etype = Some ''FFmpegInput'', inputLabel = ''0'', getOutputPad = (\<lambda>s. Inl TypeError)\<rparr>,
                   specifier = ''0'', entityType = Some ''FFmpegInput''\<rparr> = Inr ''0:0''
   \<and> spec_toString \<lparr>entity = \<lparr>etype = Some ''FFmpegInput'', inputLabel = ''1'', getOutputPad = (\<lambda>s. Inl TypeError)\<rparr>,
                   specifier = ''0'', entityType = Some ''FFmpegInput''\<rparr> = Inr ''1:0''
   \<and> out_toCommandArray (\<lambda>v. [])
        \<lparr>url = ''gen.mov'',
         out_options = [\<lparr>name = ''c:v'', optionName = ''-c:v'', arg_opt = StrV ''prores''\<rparr>,
                        \<lparr>name = ''an'', optionName = ''-an'', arg_opt = Null\<rparr>],
         streams = [SpecV \<lparr>entity = \<lparr>etype = Some ''FFmpegInput'', inputLabel = ''0'', getOutputPad = (\<lambda>s. Inl TypeError)\<rparr>,
                           specifier = ''0'', entityType = Some ''FFmpegInput''\<rparr>,
                    SpecV \<lparr>entity = \<lparr>etype = Some ''FFmpegInput'', inputLabel = ''1'', getOutputPad = (\<lambda>s. Inl TypeError)\<rparr>,
                           specifier = ''0'', entityType = Some ''FFmpegInput''\<rparr>,
                    SpecV \<lparr>entity = \<lparr>etype = Some ''FFmpegInput'', inputLabel = ''1'', getOutputPad = (\<lambda>s. Inl TypeError)\<rparr>,
                           specifier = ''0'', entityType = Some ''FFmpegInput''\<rparr>]\<rparr>
       = Inr [''-c:v'', ''prores'', ''-an'', ''-map'', ''0:0'', ''-map'', ''1:0'', ''-map'', ''1:0'', ''gen.mov'']"
proof -
  let ?s0 = "\<lparr>entity = \<lparr>etype = Some ''FFmpegInput'', inputLabel = ''0'', getOutputPad = (\<lambda>s. Inl TypeError)\<rparr>,
               specifier = ''0'', entityType = Some ''FFmpegInput''\<rparr>"
  let ?s1 = "\<lparr>entity = \<lparr>etype = Some ''FFmpegInput'', inputLabel = ''1'', getOutputPad = (\<lambda>s. Inl TypeError)\<rparr>,
               specifier = ''0'', entityType = Some ''FFmpegInput''\<rparr>"
  have 0: "spec_toString ?s0 = Inr ''0:0''" by (simp add: spec_toString_def)
  have 1: "spec_toString ?s1 = Inr ''1:0''" by (simp add: spec_toString_def)
  from output_tokens_in_order[of "\<lambda>v. []" _ _ "''gen.mov''"
      "[\<lparr>name = ''c:v'', optionName = ''-c:v'', arg_opt = StrV ''prores''\<rparr>,
        \<lparr>name = ''an'', optionName = ''-an'', arg_opt = Null\<rparr>]" ?s0 "''0:0''" ?s1 "''1:0''"] 0 1
  show ?thesis by (simp add: opt_toCommandArray_def)
qed

subsection \<open>The option\<close>

lemma validate_collection:
  "isArray arg \<or> instanceof_Map arg \<Longrightarrow> validate nm arg = Inl InvalidArgument"
  by (cases arg) (simp_all add: validate_def)

lemma validate_stringable:
  "arg = Null \<or> typeof_string arg \<or> (has_toString arg \<and> \<not> isArray arg \<and> \<not> instanceof_Map arg)
   \<Longrightarrow> validate nm arg = Inr True"
  by (cases arg) (auto simp: validate_def)

lemma wrap_chain_or_node:
  assumes "instanceof_FilterChain v \<or> instanceof_FilterNode v" and "returns_chain cw v h"
  shows "\<exists>h'. wrap cw v h = Inr (GraphV (fresh h), h')"
proof -
  from assms(1) have ng: "\<not> instanceof_FilterGraph v" by (cases v) auto
  obtain h1 where h1: "new_FilterGraph h = (fresh h, h1)" by (simp add: new_FilterGraph_def)
  from assms(2) h1 obtain c h2 where c: "cw v h1 = Inr (c, h2)" "instanceof_FilterChain c"
    by (auto simp: returns_chain_def split: sum.splits prod.splits)
  from c(2) obtain r where "c = ChainV r" by (cases c) auto
  with ng assms(1) h1 c(1) show ?thesis by (simp add: wrap_def)
qed

lemma wrap_filter:
  assumes "is_filter v" and "\<not> instanceof_FilterGraph v \<longrightarrow> returns_chain cw v h"
  shows "\<exists>w h'. wrap cw v h = Inr (w, h') \<and> instanceof_FilterGraph w"
proof (cases "instanceof_FilterGraph v")
  case True
  then show ?thesis by (simp add: wrap_graph)
next
  case False
  with assms have "instanceof_FilterChain v \<or> instanceof_FilterNode v" "returns_chain cw v h"
    by (auto simp: is_filter_def)
  from wrap_chain_or_node[OF this] show ?thesis by auto
qed

lemma filter_validates: "is_filter v \<Longrightarrow> validate nm v = Inr True"
  by (cases v) (auto simp: is_filter_def validate_def)

lemma filter_not_undefined: "is_filter v \<Longrightarrow> v \<noteq> Undefined"
  by (auto simp: is_filter_def)

text \<open>
  C3. For a name of \<open>FILTER_OPTIONS\<close> and an argument that is a filter graph, a filter
  chain or a filter node (\<^verbatim>\<open>FilterChain.wrap\<close> giving back a chain for the last two), the
  constructor succeeds and stores the name \<^verbatim>\<open>filter_complex\<close>, whatever the name supplied.
  For an argument that is none of the three the option constructed keeps the name supplied;
  a plain string is such an argument.
\<close>

theorem filter_alias_normalized:
  "(nm \<in> set FILTER_OPTIONS \<and> is_filter arg \<and> (\<not> instanceof_FilterGraph arg \<longrightarrow> returns_chain cw arg h)
      \<longrightarrow> (\<exists>h'. FFmpegOption cw nm arg h =
                   Inr (\<lparr>name = ''filter_complex'', optionName = ''-filter_complex'', arg_opt = arg\<rparr>, h')))
   \<and> (\<not> is_filter arg \<and> FFmpegOption cw nm arg h = Inr (opt, h') \<longrightarrow> name opt = nm)
   \<and> FFmpegOption cw nm (StrV s) h = Inr (\<lparr>name = nm, optionName = ''-'' @ nm, arg_opt = StrV s\<rparr>, h)"
proof (intro conjI impI)
  assume a: "nm \<in> set FILTER_OPTIONS \<and> is_filter arg \<and> (\<not> instanceof_FilterGraph arg \<longrightarrow> returns_chain cw arg h)"
  then obtain w h' where w: "wrap cw arg h = Inr (w, h')" "instanceof_FilterGraph w"
    using wrap_filter[of arg cw h] by blast
  from a have "arg \<noteq> Undefined" "validate nm arg = Inr True"
    by (simp_all add: filter_not_undefined filter_validates)
  with a w show "\<exists>h'. FFmpegOption cw nm arg h =
                   Inr (\<lparr>name = ''filter_complex'', optionName = ''-filter_complex'', arg_opt = arg\<rparr>, h')"
    by (simp add: FFmpegOption_def Let_def)
next
  assume a: "\<not> is_filter arg \<and> FFmpegOption cw nm arg h = Inr (opt, h')"
  have nf: "\<not> is_filter (if arg = Undefined then Null else arg)"
    using a by (simp add: is_filter_def)
  have "\<not> instanceof_FilterGraph (if arg = Undefined then Null else arg)"
    using nf by (simp add: is_filter_def)
  with a wrap_other[OF nf, of cw h] show "name opt = nm"
    by (auto simp: FFmpegOption_def Let_def split: sum.splits if_splits)
next
  show "FFmpegOption cw nm (StrV s) h = Inr (\<lparr>name = nm, optionName = ''-'' @ nm, arg_opt = StrV s\<rparr>, h)"
    by (simp add: FFmpegOption_def Let_def validate_def wrap_def)
qed

theorem filter_alias_normalized_witness:
  "''vf'' \<in> set FILTER_OPTIONS \<and> is_filter (NodeV 4) \<and> returns_chain (\<lambda>v s. Inr (ChainV 9, s)) (NodeV 4) empty_heap
   \<and> (\<exists>h'. FFmpegOption (\<lambda>v s. Inr (ChainV 9, s)) ''vf'' (NodeV 4) empty_heap =
              Inr (\<lparr>name = ''filter_complex'', optionName = ''-filter_complex'', arg_opt = NodeV 4\<rparr>, h'))
   \<and> FFmpegOption (\<lambda>v s. Inr (ChainV 9, s)) ''vf'' (StrV ''scale=640:-1'') empty_heap =
        Inr (\<lparr>name = ''vf'', optionName = ''-vf'', arg_opt = StrV ''scale=640:-1''\<rparr>, empty_heap)"
proof -
  have 1: "''vf'' \<in> set FILTER_OPTIONS" by (simp add: FILTER_OPTIONS_def)
  have 2: "is_filter (NodeV 4)" by (simp add: is_filter_def)
  have 3: "returns_chain (\<lambda>v s. Inr (ChainV 9, s)) (NodeV 4) empty_heap" by (simp add: returns_chain_def)
  note t = filter_alias_normalized[of "''vf''" "NodeV 4" "\<lambda>v s. Inr (ChainV 9, s)" empty_heap _ _ "''scale=640:-1''"]
  from t 1 2 3 have 4: "\<exists>h'. FFmpegOption (\<lambda>v s. Inr (ChainV 9, s)) ''vf'' (NodeV 4) empty_heap =
              Inr (\<lparr>name = ''filter_complex'', optionName = ''-filter_complex'', arg_opt = NodeV 4\<rparr>, h')" by blast
  from t have 5: "FFmpegOption (\<lambda>v s. Inr (ChainV 9, s)) ''vf'' (StrV ''scale=640:-1'') empty_heap =
        Inr (\<lparr>name = ''vf'', optionName = ''-'' @ ''vf'', arg_opt = StrV ''scale=640:-1''\<rparr>, empty_heap)" by blast
  from 1 2 3 4 5 show ?thesis by simp
qed

text \<open>
  C7, as the code has it. The constructor raises \<open>InvalidArgument\<close> on an array and on an
  instance of \<^verbatim>\<open>Map\<close>, for every option name; on \<^verbatim>\<open>null\<close>, on a string and on any other value
  that has a \<^verbatim>\<open>toString\<close> method, an array and a \<^verbatim>\<open>Map\<close> apart, it succeeds and stores the
  argument (\<^verbatim>\<open>FilterChain.wrap\<close> giving back a chain where the filter-name rule calls it).
  A plain object is such a value.
\<close>

theorem option_argument_validation:
  "FFmpegOption cw nm (ArrayV xs) h = Inl InvalidArgument
   \<and> FFmpegOption cw nm (MapV kvs) h = Inl InvalidArgument
   \<and> ((arg = Null \<or> typeof_string arg \<or> (has_toString arg \<and> \<not> isArray arg \<and> \<not> instanceof_Map arg))
        \<and> (nm \<in> set FILTER_OPTIONS \<and> (instanceof_FilterChain arg \<or> instanceof_FilterNode arg)
             \<longrightarrow> returns_chain cw arg h)
      \<longrightarrow> (\<exists>opt h'. FFmpegOption cw nm arg h = Inr (opt, h') \<and> arg_opt opt = arg))"
proof (intro conjI impI)
  show "FFmpegOption cw nm (ArrayV xs) h = Inl InvalidArgument"
    by (simp add: FFmpegOption_def Let_def validate_def)
  show "FFmpegOption cw nm (MapV kvs) h = Inl InvalidArgument"
    by (simp add: FFmpegOption_def Let_def validate_def)
next
  assume a: "(arg = Null \<or> typeof_string arg \<or> (has_toString arg \<and> \<not> isArray arg \<and> \<not> instanceof_Map arg))
        \<and> (nm \<in> set FILTER_OPTIONS \<and> (instanceof_FilterChain arg \<or> instanceof_FilterNode arg)
             \<longrightarrow> returns_chain cw arg h)"
  then have v: "validate nm arg = Inr True" and nu: "arg \<noteq> Undefined"
    by (auto simp: validate_stringable)
  have "\<exists>w h'. wrap cw arg h = Inr (w, h')" if "nm \<in> set FILTER_OPTIONS"
  proof (cases "is_filter arg")
    case True
    with a that wrap_filter[of arg cw h] show ?thesis by (auto simp: is_filter_def)
  next
    case False
    then show ?thesis by (simp add: wrap_other)
  qed
  with v nu show "\<exists>opt h'. FFmpegOption cw nm arg h = Inr (opt, h') \<and> arg_opt opt = arg"
    by (auto simp: FFmpegOption_def Let_def)
qed

theorem option_argument_validation_witness:
  "FFmpegOption (\<lambda>v s. Inr (v, s)) ''map'' (ArrayV [StrV ''0:0'']) empty_heap = Inl InvalidArgument
   \<and> FFmpegOption (\<lambda>v s. Inr (v, s)) ''map'' (MapV []) empty_heap = Inl InvalidArgument
   \<and> has_toString (NumV 8) \<and> \<not> isArray (NumV 8) \<and> \<not> instanceof_Map (NumV 8)
   \<and> \<not> instanceof_FilterChain (NumV 8) \<and> \<not> instanceof_FilterNode (NumV 8)
   \<and> (\<exists>opt h'. FFmpegOption (\<lambda>v s. Inr (v, s)) ''threads'' (NumV 8) empty_heap = Inr (opt, h') \<and> arg_opt opt = NumV 8)"
proof -
  have a: "has_toString (NumV 8) \<and> \<not> isArray (NumV 8) \<and> \<not> instanceof_Map (NumV 8)
     \<and> \<not> instanceof_FilterChain (NumV 8) \<and> \<not> instanceof_FilterNode (NumV 8)" by simp
  note t = option_argument_validation[of "\<lambda>v s. Inr (v, s)" _ _ empty_heap]
  from t[of "''map''" "[StrV ''0:0'']"] have 1: "FFmpegOption (\<lambda>v s. Inr (v, s)) ''map'' (ArrayV [StrV ''0:0'']) empty_heap = Inl InvalidArgument"
    by blast
  from t[of "''map''" _ "[]"] have 2: "FFmpegOption (\<lambda>v s. Inr (v, s)) ''map'' (MapV []) empty_heap = Inl InvalidArgument"
    by blast
  from t[of "''threads''" _ _ "NumV 8"] a
  have 3: "\<exists>opt h'. FFmpegOption (\<lambda>v s. Inr (v, s)) ''threads'' (NumV 8) empty_heap = Inr (opt, h') \<and> arg_opt opt = NumV 8"
    by blast
  from a 1 2 3 show ?thesis by blast
qed

text \<open>
  A key-value map written as a plain object, \<^verbatim>\<open>{title: 'x'}\<close>, is neither an array nor an
  instance of \<^verbatim>\<open>Map\<close> and inherits \<^verbatim>\<open>toString\<close>: the constructor returns, and the option
  renders the object as \<^verbatim>\<open>[object Object]\<close>.
\<close>

theorem option_accepts_plain_object:
  "\<not> isArray (ObjV (Some ''[object Object]'')) \<and> \<not> instanceof_Map (ObjV (Some ''[object Object]''))
   \<and> FFmpegOption (\<lambda>v s. Inr (v, s)) ''metadata'' (ObjV (Some ''[object Object]'')) empty_heap
       = Inr (\<lparr>name = ''metadata'', optionName = ''-metadata'',
               arg_opt = ObjV (Some ''[object Object]'')\<rparr>, empty_heap)
   \<and> opt_toCommandArray (\<lambda>v. [])
        \<lparr>name = ''metadata'', optionName = ''-metadata'', arg_opt = ObjV (Some ''[object Object]'')\<rparr>
       = [''-metadata'', ''[object Object]'']"
  by (simp add: FFmpegOption_def Let_def validate_def FILTER_OPTIONS_def opt_toCommandArray_def)

subsection \<open>The stream specifier\<close>

lemma spec_other_type:
  "t \<noteq> ''FFmpegInput'' \<Longrightarrow> t \<noteq> ''FilterChain'' \<Longrightarrow> etype ent = Some t \<Longrightarrow>
   FFmpegStreamSpecifier ent spec = Inr \<lparr>entity = ent, specifier = spec, entityType = Some t\<rparr>"
  by (simp add: FFmpegStreamSpecifier_def spec_toString_def Let_def)

text \<open>
  C5. The constructor raises \<open>InvalidEntity\<close> only for an owner whose \<^verbatim>\<open>type\<close> is
  \<^verbatim>\<open>undefined\<close>. On an owner with \<^verbatim>\<open>type\<close> \<^verbatim>\<open>FFmpegOutput\<close>, which is neither of the two
  kinds the message of the error names, it returns a specifier.
\<close>

theorem specifier_on_output_constructs:
  "FFmpegStreamSpecifier \<lparr>etype = Some ''FFmpegOutput'', inputLabel = ''undefined'', getOutputPad = (\<lambda>s. Inl TypeError)\<rparr> ''0''
     = Inr \<lparr>entity = \<lparr>etype = Some ''FFmpegOutput'', inputLabel = ''undefined'', getOutputPad = (\<lambda>s. Inl TypeError)\<rparr>,
            specifier = ''0'', entityType = Some ''FFmpegOutput''\<rparr>"
  by (simp add: FFmpegStreamSpecifier_def spec_toString_def Let_def)

subsection \<open>The streams of an output\<close>

lemma validateStreams_array: "validateStreams (ArrayV xs) = Inr xs"
  by (simp add: validateStreams_def js_not_def list_ex_iff)

text \<open>
  C6. \<^verbatim>\<open>addStreams\<close> on an array holding a string and a number, neither a stream
  specifier, returns and appends both: the test of the elements never raises.
\<close>

theorem addStreams_accepts_non_specifier:
  "addStreams (ArrayV [StrV ''0:0'', NumV 7]) \<lparr>url = ''out.mov'', out_options = [], streams = []\<rparr>
     = Inr \<lparr>url = ''out.mov'', out_options = [], streams = [StrV ''0:0'', NumV 7]\<rparr>"
  by (simp add: addStreams_def validateStreams_def js_not_def)

subsection \<open>The progress emitter\<close>

text \<open>
  C8. A chunk ending in a carriage return is dropped: no log entry, no event, the state as
  it was.
\<close>

theorem cr_chunk_dropped:
  "ends_with_cr chunk \<Longrightarrow> write_chunk chunk this = Inr (this, [])"
  by (simp add: write_chunk_def)

theorem cr_chunk_dropped_witness:
  "ends_with_cr ''frame=  100 fps= 25\<newline>'' = False \<and> ends_with_cr (''frame=  100 fps= 25'' @ [CHR 0x0D]) \<and>
   write_chunk (''frame=  100 fps= 25'' @ [CHR 0x0D]) new_emitter = Inr (new_emitter, [])"
  using cr_chunk_dropped [of "''frame=  100 fps= 25'' @ [CHR 0x0D]" new_emitter]
  by (simp add: ends_with_cr_def)

lemma split_none: "d \<notin> set r \<Longrightarrow> split d r = [r]"
  by (induction r) auto

lemma split_first: "d \<notin> set k \<Longrightarrow> split d (k @ d # r) = k # split d r"
  by (induction k) auto

lemma rtrim_after:
  "\<not> is_space c \<Longrightarrow> rev (dropWhile is_space (rev (k @ c # v))) = k @ c # rev (dropWhile is_space (rev v))"
  by (simp add: dropWhile_append3)

lemma ltrim_none: "k \<noteq> [] \<Longrightarrow> \<not> is_space (hd k) \<Longrightarrow> dropWhile is_space (k @ r) = k @ r"
  by (cases k) simp_all

lemma eq_not_space: "\<not> is_space CHR ''=''"
  by (simp add: is_space_def)

lemma trim_field:
  assumes "k \<noteq> []" and "\<not> is_space (hd k)"
  shows "trim (k @ CHR ''='' # v) = k @ CHR ''='' # rev (dropWhile is_space (rev v))"
proof -
  have "dropWhile is_space (k @ CHR ''='' # v) = k @ CHR ''='' # v"
    using assms by (rule ltrim_none)
  then show ?thesis
    unfolding trim_def by (simp only: rtrim_after[OF eq_not_space])
qed

lemma rtrim_set: "set (rev (dropWhile is_space (rev v))) \<subseteq> set v"
  using set_dropWhileD[of _ is_space "rev v"] by auto

lemma field_line_shape:
  assumes "is_field_line s"
  obtains k v where "s = k @ CHR ''='' # v" "k \<noteq> []" "\<not> is_space (hd k)" "CHR ''='' \<notin> set k"
    "CHR ''='' \<notin> set v"
proof -
  let ?Q = "\<lambda>c. \<not> is_space c \<and> c \<noteq> CHR ''=''"
  let ?k = "takeWhile ?Q s"
  from assms obtain v where v: "dropWhile ?Q s = CHR ''='' # v" "CHR ''='' \<notin> set v" and k: "?k \<noteq> []"
    by (auto simp: is_field_line_def Let_def split: list.splits)
  have s: "s = ?k @ CHR ''='' # v" using v(1) takeWhile_dropWhile_id[of ?Q s] by simp
  have q: "\<forall>c \<in> set ?k. ?Q c" by (auto dest: set_takeWhileD)
  from k have "hd ?k \<in> set ?k" by simp
  with q have "\<not> is_space (hd ?k)" by blast
  moreover from q have "CHR ''='' \<notin> set ?k" by blast
  ultimately show thesis using that[of ?k v] s k v(2) by blast
qed

lemma progress_is_field_line:
  assumes "st \<noteq> []" and "CHR ''='' \<notin> set st"
  shows "is_field_line (''progress='' @ st @ [CHR 0x0A])"
  using assms by (cases st) (simp_all add: is_field_line_def is_space_def)

lemma progress_not_cr: "\<not> ends_with_cr (''progress='' @ st @ [CHR 0x0A])"
  by (simp add: ends_with_cr_def)

lemma progress_split:
  assumes "CHR ''='' \<notin> set st"
  shows "split CHR ''='' (trim (''progress='' @ st @ [CHR 0x0A])) =
           [''progress'', rev (dropWhile is_space (rev (st @ [CHR 0x0A])))]"
proof -
  have t: "trim (''progress'' @ CHR ''='' # (st @ [CHR 0x0A])) =
        ''progress'' @ CHR ''='' # rev (dropWhile is_space (rev (st @ [CHR 0x0A])))"
    by (rule trim_field) (simp_all add: is_space_def)
  have n: "CHR ''='' \<notin> set (rev (dropWhile is_space (rev (st @ [CHR 0x0A]))))"
    using assms rtrim_set[of "st @ [CHR 0x0A]"] by auto
  have "split CHR ''='' (''progress'' @ CHR ''='' # rev (dropWhile is_space (rev (st @ [CHR 0x0A])))) =
        ''progress'' # split CHR ''='' (rev (dropWhile is_space (rev (st @ [CHR 0x0A]))))"
    by (rule split_first) simp
  with t n show ?thesis by (simp add: split_none)
qed

lemma write_progress:
  assumes "st \<noteq> []" and "CHR ''='' \<notin> set st"
  shows "write_chunk (''progress='' @ st @ [CHR 0x0A]) this = Inr (emitUpdateEvent this)"
  using progress_is_field_line[OF assms] progress_not_cr[of st] progress_split[OF assms(2)]
  by (simp add: write_chunk_def parseProgress_def)

lemma num_truthy_eq: "num_eq a b \<Longrightarrow> num_truthy a \<Longrightarrow> num_truthy b"
  by (auto simp: num_eq_def num_truthy_def)

lemma div1000_zero: "is_zero b \<Longrightarrow> is_zero (num_div1000 b)"
  by (cases b) (simp_all add: round64_def)

lemma emit_shape:
  "\<exists>p. emitUpdateEvent this =
          (\<lparr>logBuffer = logBuffer this, progressData = p, partialProgressData = Map.empty\<rparr>, [p])
       \<and> p = (if truthy_field (partialProgressData this ''out_time_ms'') \<and>
                  truthy_field (partialProgressData this ''out_time_us'') \<and>
                  strict_equal (partialProgressData this ''out_time_ms'')
                    (partialProgressData this ''out_time_us'')
               then (partialProgressData this)
                      (''out_time_ms'' \<mapsto> div1000 (partialProgressData this ''out_time_us''))
               else partialProgressData this)"
  by (simp add: emitUpdateEvent_def Let_def)

lemma only_progress_emits:
  assumes "write_chunk chunk this = Inr (this', evs)" and "evs \<noteq> []"
  shows "(\<exists>v. chunk = ''progress='' @ v) \<and> (this', evs) = emitUpdateEvent this"
proof -
  from assms have f: "is_field_line chunk" and p: "parseProgress (trim chunk) this = Inr (this', evs)"
    by (auto simp: write_chunk_def split: if_splits sum.splits)
  from f obtain k v where s: "chunk = k @ CHR ''='' # v" "k \<noteq> []" "\<not> is_space (hd k)"
      "CHR ''='' \<notin> set k" "CHR ''='' \<notin> set v"
    by (rule field_line_shape)
  have "split CHR ''='' (trim chunk) = k # split CHR ''='' (rev (dropWhile is_space (rev v)))"
    using s by (simp add: trim_field split_first)
  with p assms(2) have "k = ''progress''" and "(this', evs) = emitUpdateEvent this"
    by (auto simp: parseProgress_def Let_def split: if_splits list.splits)
  with s(1) show ?thesis by simp
qed

text \<open>No chunk puts a quotient of the fix-up among the pending fields.\<close>

lemma pending_never_quotient:
  assumes "write_chunk c this = Inr (this', evs)"
      and "\<forall>k s. partialProgressData this k \<noteq> Some (PQuotient s)"
  shows "\<forall>k s. partialProgressData this' k \<noteq> Some (PQuotient s)"
  using assms
  by (auto simp: write_chunk_def parseProgress_def emitUpdateEvent_def set_field_def Let_def
      split: if_splits sum.splits list.splits)

lemma parseFloat_5000: "parseFloat ''5000'' = Fin 5000"
  by code_simp

lemma round64_5: "round64 5 = Fin 5"
  by code_simp

lemma write_out_time_ms: "write_chunk ''out_time_ms=5000\<newline>'' this =
   Inr (this\<lparr>partialProgressData := (partialProgressData this)(''out_time_ms'' \<mapsto> PNum (Fin 5000))\<rparr>, [])"
  by (simp add: write_chunk_def ends_with_cr_def is_field_line_def is_space_def trim_def
      parseProgress_def numRegExp_def is_digit_def parseFloat_5000 set_field_def Let_def)

lemma write_out_time_us: "write_chunk ''out_time_us=5000\<newline>'' this =
   Inr (this\<lparr>partialProgressData := (partialProgressData this)(''out_time_us'' \<mapsto> PNum (Fin 5000))\<rparr>, [])"
  by (simp add: write_chunk_def ends_with_cr_def is_field_line_def is_space_def trim_def
      parseProgress_def numRegExp_def is_digit_def parseFloat_5000 set_field_def Let_def)

text \<open>
  C4, as the code has it. A chunk \<^verbatim>\<open>progress=<state>\<close> with its line feed runs
  \<^verbatim>\<open>_emitUpdateEvent\<close> once. That replaces \<^verbatim>\<open>progressData\<close> by a record \<open>p\<close>, whatever
  \<^verbatim>\<open>progressData\<close> held, empties \<^verbatim>\<open>partialProgressData\<close>, leaves the log alone and emits the
  one event \<open>p\<close>. When \<^verbatim>\<open>out_time_ms\<close> and \<^verbatim>\<open>out_time_us\<close> are both pending, both truthy and
  strictly equal, that is the same number other than zero or the same text other than the
  empty one, \<open>p\<close> is the pending record with \<^verbatim>\<open>out_time_ms\<close> replaced by
  \<^verbatim>\<open>out_time_us / 1000\<close>; in every other case \<open>p\<close> is the pending record itself. So two equal
  numbers always commit an \<^verbatim>\<open>out_time_ms\<close> equal to \<^verbatim>\<open>out_time_us / 1000\<close>. A chunk that emits
  an event starts with \<^verbatim>\<open>progress=\<close> and has done exactly this.
\<close>

theorem progress_line_completes_record:
  "(st \<noteq> [] \<and> CHR ''='' \<notin> set st \<longrightarrow>
      write_chunk (''progress='' @ st @ [CHR 0x0A]) this = Inr (emitUpdateEvent this))
   \<and> (\<exists>p. emitUpdateEvent this =
            (\<lparr>logBuffer = logBuffer this, progressData = p, partialProgressData = Map.empty\<rparr>, [p])
          \<and> (\<forall>a b. partialProgressData this ''out_time_ms'' = Some (PNum a) \<and>
                    partialProgressData this ''out_time_us'' = Some (PNum b) \<and>
                    num_eq a b \<and> num_truthy a \<longrightarrow>
                    p = (partialProgressData this)(''out_time_ms'' \<mapsto> PNum (num_div1000 b)))
          \<and> (\<forall>s. partialProgressData this ''out_time_ms'' = Some (PStr s) \<and>
                  partialProgressData this ''out_time_us'' = Some (PStr s) \<and> s \<noteq> [] \<longrightarrow>
                  p = (partialProgressData this)(''out_time_ms'' \<mapsto> PQuotient s))
          \<and> (partialProgressData this ''out_time_ms'' = None \<or>
              partialProgressData this ''out_time_us'' = None \<longrightarrow> p = partialProgressData this)
          \<and> (\<forall>a b. partialProgressData this ''out_time_ms'' = Some (PNum a) \<and>
                    partialProgressData this ''out_time_us'' = Some (PNum b) \<and>
                    (\<not> num_eq a b \<or> \<not> num_truthy a) \<longrightarrow> p = partialProgressData this)
          \<and> (\<forall>s t. partialProgressData this ''out_time_ms'' = Some (PStr s) \<and>
                    partialProgressData this ''out_time_us'' = Some (PStr t) \<and>
                    (s \<noteq> t \<or> s = []) \<longrightarrow> p = partialProgressData this)
          \<and> (\<forall>a s. (partialProgressData this ''out_time_ms'' = Some (PNum a) \<and>
                     partialProgressData this ''out_time_us'' = Some (PStr s)) \<or>
                    (partialProgressData this ''out_time_ms'' = Some (PStr s) \<and>
                     partialProgressData this ''out_time_us'' = Some (PNum a)) \<longrightarrow>
                    p = partialProgressData this)
          \<and> (\<forall>a b. partialProgressData this ''out_time_ms'' = Some (PNum a) \<and>
                    partialProgressData this ''out_time_us'' = Some (PNum b) \<and> num_eq a b \<longrightarrow>
                    (\<exists>m. p ''out_time_ms'' = Some (PNum m) \<and> num_eq m (num_div1000 b))))
   \<and> (write_chunk chunk this = Inr (this', evs) \<and> evs \<noteq> [] \<longrightarrow>
        (\<exists>v. chunk = ''progress='' @ v) \<and> (this', evs) = emitUpdateEvent this)"
proof (intro conjI impI)
  assume "st \<noteq> [] \<and> CHR ''='' \<notin> set st"
  then show "write_chunk (''progress='' @ st @ [CHR 0x0A]) this = Inr (emitUpdateEvent this)"
    using write_progress[of st this] by blast
next
  let ?P = "partialProgressData this"
  from emit_shape[of this] obtain p where e: "emitUpdateEvent this =
          (\<lparr>logBuffer = logBuffer this, progressData = p, partialProgressData = Map.empty\<rparr>, [p])"
    and p: "p = (if truthy_field (?P ''out_time_ms'') \<and> truthy_field (?P ''out_time_us'') \<and>
                  strict_equal (?P ''out_time_ms'') (?P ''out_time_us'')
               then ?P(''out_time_ms'' \<mapsto> div1000 (?P ''out_time_us''))
               else ?P)" by blast
  have 1: "p = ?P(''out_time_ms'' \<mapsto> PNum (num_div1000 b))"
    if "?P ''out_time_ms'' = Some (PNum a) \<and> ?P ''out_time_us'' = Some (PNum b) \<and>
        num_eq a b \<and> num_truthy a" for a b
    using that p num_truthy_eq[of a b] by simp
  have 2: "p = ?P(''out_time_ms'' \<mapsto> PQuotient s)"
    if "?P ''out_time_ms'' = Some (PStr s) \<and> ?P ''out_time_us'' = Some (PStr s) \<and> s \<noteq> []" for s
    using that p by simp
  have 3: "p = ?P" if "?P ''out_time_ms'' = None \<or> ?P ''out_time_us'' = None"
    using that p by auto
  have 4: "p = ?P"
    if "?P ''out_time_ms'' = Some (PNum a) \<and> ?P ''out_time_us'' = Some (PNum b) \<and>
        (\<not> num_eq a b \<or> \<not> num_truthy a)" for a b
    using that p by auto
  have 5: "p = ?P"
    if "?P ''out_time_ms'' = Some (PStr s) \<and> ?P ''out_time_us'' = Some (PStr t) \<and>
        (s \<noteq> t \<or> s = [])" for s t
    using that p by auto
  have 6: "p = ?P"
    if "(?P ''out_time_ms'' = Some (PNum a) \<and> ?P ''out_time_us'' = Some (PStr s)) \<or>
        (?P ''out_time_ms'' = Some (PStr s) \<and> ?P ''out_time_us'' = Some (PNum a))" for a s
    using that p by auto
  have 7: "\<exists>m. p ''out_time_ms'' = Some (PNum m) \<and> num_eq m (num_div1000 b)"
    if h: "?P ''out_time_ms'' = Some (PNum a) \<and> ?P ''out_time_us'' = Some (PNum b) \<and> num_eq a b"
    for a b
  proof (cases "num_truthy a")
    case True
    with h 1[of a b] have "p ''out_time_ms'' = Some (PNum (num_div1000 b))" by simp
    then show ?thesis by (simp add: num_eq_def)
  next
    case False
    with h 4[of a b] have m: "p ''out_time_ms'' = Some (PNum a)" by simp
    from False have za: "is_zero a" by (simp add: num_truthy_def)
    with h have "is_zero b" by (auto simp: num_eq_def)
    then have "is_zero (num_div1000 b)" by (rule div1000_zero)
    with za have "num_eq a (num_div1000 b)" by (simp add: num_eq_def)
    with m show ?thesis by blast
  qed
  from e 1 2 3 4 5 6 7
  show "\<exists>p. emitUpdateEvent this =
            (\<lparr>logBuffer = logBuffer this, progressData = p, partialProgressData = Map.empty\<rparr>, [p])
          \<and> (\<forall>a b. ?P ''out_time_ms'' = Some (PNum a) \<and> ?P ''out_time_us'' = Some (PNum b) \<and>
                    num_eq a b \<and> num_truthy a \<longrightarrow>
                    p = ?P(''out_time_ms'' \<mapsto> PNum (num_div1000 b)))
          \<and> (\<forall>s. ?P ''out_time_ms'' = Some (PStr s) \<and> ?P ''out_time_us'' = Some (PStr s) \<and> s \<noteq> [] \<longrightarrow>
                  p = ?P(''out_time_ms'' \<mapsto> PQuotient s))
          \<and> (?P ''out_time_ms'' = None \<or> ?P ''out_time_us'' = None \<longrightarrow> p = ?P)
          \<and> (\<forall>a b. ?P ''out_time_ms'' = Some (PNum a) \<and> ?P ''out_time_us'' = Some (PNum b) \<and>
                    (\<not> num_eq a b \<or> \<not> num_truthy a) \<longrightarrow> p = ?P)
          \<and> (\<forall>s t. ?P ''out_time_ms'' = Some (PStr s) \<and> ?P ''out_time_us'' = Some (PStr t) \<and>
                    (s \<noteq> t \<or> s = []) \<longrightarrow> p = ?P)
          \<and> (\<forall>a s. (?P ''out_time_ms'' = Some (PNum a) \<and> ?P ''out_time_us'' = Some (PStr s)) \<or>
                    (?P ''out_time_ms'' = Some (PStr s) \<and> ?P ''out_time_us'' = Some (PNum a)) \<longrightarrow>
                    p = ?P)
          \<and> (\<forall>a b. ?P ''out_time_ms'' = Some (PNum a) \<and> ?P ''out_time_us'' = Some (PNum b) \<and>
                    num_eq a b \<longrightarrow>
                    (\<exists>m. p ''out_time_ms'' = Some (PNum m) \<and> num_eq m (num_div1000 b)))"
    by (intro exI[of _ p] conjI allI impI) blast+
next
  assume a: "write_chunk chunk this = Inr (this', evs) \<and> evs \<noteq> []"
  then show "\<exists>v. chunk = ''progress='' @ v" using only_progress_emits[of chunk this this' evs] by blast
  from a show "(this', evs) = emitUpdateEvent this" using only_progress_emits[of chunk this this' evs] by blast
qed


theorem progress_line_completes_record_witness:
  "''continue'' \<noteq> [] \<and> CHR ''='' \<notin> set ''continue''
   \<and> num_eq (Fin 5000) (Fin 5000) \<and> num_truthy (Fin 5000)
   \<and> write_chunks [''out_time_ms=5000\<newline>'', ''out_time_us=5000\<newline>'', ''progress=continue\<newline>''] new_emitter
     = Inr (\<lparr>logBuffer = [],
             progressData = [''out_time_ms'' \<mapsto> PNum (Fin 5000), ''out_time_us'' \<mapsto> PNum (Fin 5000),
                             ''out_time_ms'' \<mapsto> PNum (Fin 5)],
             partialProgressData = Map.empty\<rparr>,
            [[''out_time_ms'' \<mapsto> PNum (Fin 5000), ''out_time_us'' \<mapsto> PNum (Fin 5000),
              ''out_time_ms'' \<mapsto> PNum (Fin 5)]])
   \<and> [''out_time_ms'' \<mapsto> PNum (Fin 5000), ''out_time_us'' \<mapsto> PNum (Fin 5000),
        ''out_time_ms'' \<mapsto> PNum (Fin 5)] ''out_time_ms'' = Some (PNum (Fin 5))"
proof -
  let ?P = "[''out_time_ms'' \<mapsto> PNum (Fin 5000), ''out_time_us'' \<mapsto> PNum (Fin 5000)]"
  let ?s2 = "\<lparr>logBuffer = [], progressData = Map.empty, partialProgressData = ?P\<rparr>"
  have h: "num_eq (Fin 5000) (Fin 5000) \<and> num_truthy (Fin 5000)"
    by (simp add: num_eq_def num_truthy_def)
  have 1: "write_chunk ''out_time_ms=5000\<newline>'' new_emitter =
      Inr (\<lparr>logBuffer = [], progressData = Map.empty,
            partialProgressData = [''out_time_ms'' \<mapsto> PNum (Fin 5000)]\<rparr>, [])"
    by (simp add: write_out_time_ms new_emitter_def)
  have 2: "write_chunk ''out_time_us=5000\<newline>''
        \<lparr>logBuffer = [], progressData = Map.empty,
          partialProgressData = [''out_time_ms'' \<mapsto> PNum (Fin 5000)]\<rparr>
       = Inr (?s2, [])"
    by (simp add: write_out_time_us)
  note t = progress_line_completes_record[of "''continue''" ?s2]
  from t have 3: "write_chunk (''progress='' @ ''continue'' @ [CHR 0x0A]) ?s2 = Inr (emitUpdateEvent ?s2)"
    by simp
  from t obtain p where e: "emitUpdateEvent ?s2 =
        (\<lparr>logBuffer = logBuffer ?s2, progressData = p, partialProgressData = Map.empty\<rparr>, [p])"
      and f: "\<forall>a b. partialProgressData ?s2 ''out_time_ms'' = Some (PNum a) \<and>
                    partialProgressData ?s2 ''out_time_us'' = Some (PNum b) \<and>
                    num_eq a b \<and> num_truthy a \<longrightarrow>
                    p = (partialProgressData ?s2)(''out_time_ms'' \<mapsto> PNum (num_div1000 b))"
    by blast
  from f[rule_format, of "Fin 5000" "Fin 5000"] h
  have "p = ?P(''out_time_ms'' \<mapsto> PNum (Fin 5))" by (simp add: round64_5)
  with e have 4: "emitUpdateEvent ?s2 =
        (\<lparr>logBuffer = [], progressData = ?P(''out_time_ms'' \<mapsto> PNum (Fin 5)),
          partialProgressData = Map.empty\<rparr>, [?P(''out_time_ms'' \<mapsto> PNum (Fin 5))])"
    by simp
  from 1 2 3 4 h show ?thesis by simp
qed

lemma write_ms_not_available: "write_chunk ''out_time_ms=N/A\<newline>'' this =
   Inr (this\<lparr>partialProgressData := (partialProgressData this)(''out_time_ms'' \<mapsto> PStr ''N/A'')\<rparr>, [])"
  by (simp add: write_chunk_def ends_with_cr_def is_field_line_def is_space_def trim_def
      parseProgress_def numRegExp_def is_digit_def set_field_def Let_def)

lemma write_us_not_available: "write_chunk ''out_time_us=N/A\<newline>'' this =
   Inr (this\<lparr>partialProgressData := (partialProgressData this)(''out_time_us'' \<mapsto> PStr ''N/A'')\<rparr>, [])"
  by (simp add: write_chunk_def ends_with_cr_def is_field_line_def is_space_def trim_def
      parseProgress_def numRegExp_def is_digit_def set_field_def Let_def)

text \<open>
  The two fields as \<^verbatim>\<open>N/A\<close>, which are texts and no numbers: the fix-up runs all the same,
  and the record committed holds \<^verbatim>\<open>"N/A" / 1000\<close> for \<^verbatim>\<open>out_time_ms\<close>, not the text that was
  pending.
\<close>

theorem fixup_on_equal_text:
  "\<not> numRegExp ''N/A''
   \<and> write_chunks [''out_time_ms=N/A\<newline>'', ''out_time_us=N/A\<newline>'', ''progress=continue\<newline>''] new_emitter
     = Inr (\<lparr>logBuffer = [],
             progressData = [''out_time_ms'' \<mapsto> PStr ''N/A'', ''out_time_us'' \<mapsto> PStr ''N/A'',
                             ''out_time_ms'' \<mapsto> PQuotient ''N/A''],
             partialProgressData = Map.empty\<rparr>,
            [[''out_time_ms'' \<mapsto> PStr ''N/A'', ''out_time_us'' \<mapsto> PStr ''N/A'',
              ''out_time_ms'' \<mapsto> PQuotient ''N/A'']])
   \<and> [''out_time_ms'' \<mapsto> PStr ''N/A'', ''out_time_us'' \<mapsto> PStr ''N/A'',
        ''out_time_ms'' \<mapsto> PQuotient ''N/A''] ''out_time_ms'' = Some (PQuotient ''N/A'')"
proof -
  let ?P = "[''out_time_ms'' \<mapsto> PStr ''N/A'', ''out_time_us'' \<mapsto> PStr ''N/A'']"
  let ?s2 = "\<lparr>logBuffer = [], progressData = Map.empty, partialProgressData = ?P\<rparr>"
  have 0: "\<not> numRegExp ''N/A''" by (simp add: numRegExp_def is_digit_def)
  have 1: "write_chunk ''out_time_ms=N/A\<newline>'' new_emitter =
      Inr (\<lparr>logBuffer = [], progressData = Map.empty,
            partialProgressData = [''out_time_ms'' \<mapsto> PStr ''N/A'']\<rparr>, [])"
    by (simp add: write_ms_not_available new_emitter_def)
  have 2: "write_chunk ''out_time_us=N/A\<newline>''
        \<lparr>logBuffer = [], progressData = Map.empty,
          partialProgressData = [''out_time_ms'' \<mapsto> PStr ''N/A'']\<rparr>
       = Inr (?s2, [])"
    by (simp add: write_us_not_available)
  have 3: "write_chunk (''progress='' @ ''continue'' @ [CHR 0x0A]) ?s2 = Inr (emitUpdateEvent ?s2)"
    by (rule write_progress) simp_all
  have 4: "emitUpdateEvent ?s2 =
        (\<lparr>logBuffer = [], progressData = ?P(''out_time_ms'' \<mapsto> PQuotient ''N/A''),
          partialProgressData = Map.empty\<rparr>, [?P(''out_time_ms'' \<mapsto> PQuotient ''N/A'')])"
    by (simp add: emitUpdateEvent_def Let_def)
  from 0 1 2 3 4 show ?thesis by simp
qed

subsection \<open>The filter graph\<close>

lemma addFilterChain_Inr:
  "addFilterChain g v h = Inr h' \<Longrightarrow> \<exists>c. v = ChainV c \<and> h' = attach g c h"
  by (cases v) simp_all

lemma attach_chains_mono: "set (chains h g') \<subseteq> set (chains (attach g c h) g')"
  by (auto simp: attach_def)

lemma attach_holds: "c \<in> set (chains (attach g c h) g)"
  by (simp add: attach_def)

lemma attach_backref: "filterGraph (attach g c h) c' = (if c' = c then Some g else filterGraph h c')"
  by (simp add: attach_def)

lemma attach_backrefs_held: "backrefs_held h \<Longrightarrow> backrefs_held (attach g c h)"
  unfolding backrefs_held_def
proof (intro allI impI)
  fix c' g'
  assume inv: "\<forall>c g. filterGraph h c = Some g \<longrightarrow> c \<in> set (chains h g)"
  assume b: "filterGraph (attach g c h) c' = Some g'"
  show "c' \<in> set (chains (attach g c h) g')"
  proof (cases "c' = c")
    case True
    with b have "g' = g" by (simp add: attach_backref)
    with True show ?thesis by (simp add: attach_holds)
  next
    case False
    with b have "filterGraph h c' = Some g'" by (simp add: attach_backref)
    with inv have "c' \<in> set (chains h g')" by blast
    with attach_chains_mono show ?thesis by blast
  qed
qed

lemma calls_chains_mono:
  "addFilterChain_calls cs h = Inr h' \<Longrightarrow> set (chains h g) \<subseteq> set (chains h' g)"
proof (induction cs arbitrary: h)
  case Nil
  then show ?case by simp
next
  case (Cons a cs)
  obtain g0 v where a: "a = (g0, v)" by (cases a)
  from Cons.prems a obtain h1 where h1: "addFilterChain g0 v h = Inr h1" "addFilterChain_calls cs h1 = Inr h'"
    by (auto split: sum.splits)
  from addFilterChain_Inr[OF h1(1)] obtain c where "h1 = attach g0 c h" by blast
  with attach_chains_mono have "set (chains h g) \<subseteq> set (chains h1 g)" by blast
  with Cons.IH[OF h1(2)] show ?case by blast
qed

lemma calls_backrefs_held:
  "addFilterChain_calls cs h = Inr h' \<Longrightarrow> backrefs_held h \<Longrightarrow> backrefs_held h'"
proof (induction cs arbitrary: h)
  case Nil
  then show ?case by simp
next
  case (Cons a cs)
  obtain g0 v where a: "a = (g0, v)" by (cases a)
  from Cons.prems a obtain h1 where h1: "addFilterChain g0 v h = Inr h1" "addFilterChain_calls cs h1 = Inr h'"
    by (auto split: sum.splits)
  from addFilterChain_Inr[OF h1(1)] obtain c where "h1 = attach g0 c h" by blast
  with Cons.prems(2) have "backrefs_held h1" by (simp add: attach_backrefs_held)
  with Cons.IH[OF h1(2)] show ?case .
qed

lemma calls_all_held:
  "addFilterChain_calls cs h = Inr h' \<Longrightarrow> (g, v) \<in> set cs \<Longrightarrow> \<exists>c. v = ChainV c \<and> c \<in> set (chains h' g)"
proof (induction cs arbitrary: h)
  case Nil
  then show ?case by simp
next
  case (Cons a cs)
  obtain g0 v0 where a: "a = (g0, v0)" by (cases a)
  from Cons.prems a obtain h1 where h1: "addFilterChain g0 v0 h = Inr h1" "addFilterChain_calls cs h1 = Inr h'"
    by (auto split: sum.splits)
  show ?case
  proof (cases "(g, v) = a")
    case True
    with a addFilterChain_Inr[OF h1(1)] obtain c where c: "v = ChainV c" "h1 = attach g c h" by auto
    then have "c \<in> set (chains h1 g)" by (simp add: attach_holds)
    with calls_chains_mono[OF h1(2)] c(1) show ?thesis by blast
  next
    case False
    with Cons.prems(2) have "(g, v) \<in> set cs" by simp
    from Cons.IH[OF h1(2) this] show ?thesis .
  qed
qed

lemma calls_untouched_backref:
  "addFilterChain_calls cs h = Inr h' \<Longrightarrow> \<forall>g'. (g', ChainV c) \<notin> set cs \<Longrightarrow> filterGraph h' c = filterGraph h c"
proof (induction cs arbitrary: h)
  case Nil
  then show ?case by simp
next
  case (Cons a cs)
  obtain g0 v0 where a: "a = (g0, v0)" by (cases a)
  from Cons.prems a obtain h1 where h1: "addFilterChain g0 v0 h = Inr h1" "addFilterChain_calls cs h1 = Inr h'"
    by (auto split: sum.splits)
  from addFilterChain_Inr[OF h1(1)] obtain c0 where c0: "v0 = ChainV c0" "h1 = attach g0 c0 h" by blast
  from Cons.prems(2) a c0 have "c0 \<noteq> c" by auto
  with c0 have "filterGraph h1 c = filterGraph h c" by (simp add: attach_backref)
  moreover from Cons.prems(2) have "\<forall>g'. (g', ChainV c) \<notin> set cs" by simp
  from Cons.IH[OF h1(2) this] have "filterGraph h' c = filterGraph h1 c" .
  ultimately show ?case by simp
qed

lemma addFilterChain_calls_append:
  "addFilterChain_calls (xs @ ys) h =
     (case addFilterChain_calls xs h of Inl e \<Rightarrow> Inl e | Inr h1 \<Rightarrow> addFilterChain_calls ys h1)"
  by (induction xs arbitrary: h) (auto split: sum.splits)

lemma calls_last_backref:
  assumes "addFilterChain_calls (pre @ (g, ChainV c) # post) h = Inr h'"
      and "\<forall>g'. (g', ChainV c) \<notin> set post"
  shows "filterGraph h' c = Some g"
proof -
  from assms(1) obtain h1 where h1: "addFilterChain_calls pre h = Inr h1"
      and r: "addFilterChain_calls post (attach g c h1) = Inr h'"
    by (auto simp: addFilterChain_calls_append split: sum.splits)
  from calls_untouched_backref[OF r assms(2)] show ?thesis by (simp add: attach_backref)
qed

lemma attach_chains: "chains (attach g c h) g' = (if g' = g then chains h g @ [c] else chains h g')"
  by (simp add: attach_def)

lemma calls_chains_exact:
  "addFilterChain_calls cs h = Inr h' \<Longrightarrow> chains h' g = chains h g @ added_to g cs"
proof (induction cs arbitrary: h)
  case Nil
  then show ?case by simp
next
  case (Cons a cs)
  obtain g0 v where a: "a = (g0, v)" by (cases a)
  from Cons.prems a obtain h1 where h1: "addFilterChain g0 v h = Inr h1" "addFilterChain_calls cs h1 = Inr h'"
    by (auto split: sum.splits)
  from addFilterChain_Inr[OF h1(1)] obtain c where c: "v = ChainV c" "h1 = attach g0 c h" by blast
  from Cons.IH[OF h1(2)] have "chains h' g = chains h1 g @ added_to g cs" .
  with a c show ?case by (simp add: attach_chains)
qed

text \<open>
  C9, as the code has it. \<^verbatim>\<open>addFilterChain\<close> appends the chain to the graph's list and sets
  the chain's back-reference to that graph; it removes the chain from no other list. So
  after any calls that return, the list of every graph is what it was followed by the
  chains added to that graph, in call order; every graph a chain was added to holds it;
  the back-reference of a chain is the graph of the last call that added it, and that of a
  chain no call added is what it was; and the graph a back-reference names holds the chain.
\<close>

theorem addFilterChain_backref_is_last_graph:
  assumes "addFilterChain_calls cs h = Inr h'"
  shows "(\<forall>g. chains h' g = chains h g @ added_to g cs)
       \<and> (\<forall>g v. (g, v) \<in> set cs \<longrightarrow> (\<exists>c. v = ChainV c \<and> c \<in> set (chains h' g)))
       \<and> (\<forall>pre g c post. cs = pre @ (g, ChainV c) # post \<and> (\<forall>g'. (g', ChainV c) \<notin> set post)
             \<longrightarrow> filterGraph h' c = Some g)
       \<and> (\<forall>c. (\<forall>g. (g, ChainV c) \<notin> set cs) \<longrightarrow> filterGraph h' c = filterGraph h c)
       \<and> (backrefs_held h \<longrightarrow> backrefs_held h')"
proof (intro conjI allI impI)
  fix g
  from calls_chains_exact[OF assms] show "chains h' g = chains h g @ added_to g cs" .
next
  fix g v
  assume "(g, v) \<in> set cs"
  from calls_all_held[OF assms this] show "\<exists>c. v = ChainV c \<and> c \<in> set (chains h' g)" .
next
  fix pre g c post
  assume a: "cs = pre @ (g, ChainV c) # post \<and> (\<forall>g'. (g', ChainV c) \<notin> set post)"
  with assms have "addFilterChain_calls (pre @ (g, ChainV c) # post) h = Inr h'" by simp
  from calls_last_backref[OF this] a show "filterGraph h' c = Some g" by simp
next
  fix c
  assume "\<forall>g. (g, ChainV c) \<notin> set cs"
  from calls_untouched_backref[OF assms this] show "filterGraph h' c = filterGraph h c" .
next
  assume "backrefs_held h"
  from calls_backrefs_held[OF assms this] show "backrefs_held h'" .
qed

theorem addFilterChain_backref_is_last_graph_witness:
  "addFilterChain_calls [(1, ChainV 7), (2, ChainV 8), (2, ChainV 7)] empty_heap
      = Inr (attach 2 7 (attach 2 8 (attach 1 7 empty_heap)))
   \<and> chains (attach 2 7 (attach 2 8 (attach 1 7 empty_heap))) 1 = [7]
   \<and> chains (attach 2 7 (attach 2 8 (attach 1 7 empty_heap))) 2 = [8, 7]
   \<and> 7 \<in> set (chains (attach 2 7 (attach 2 8 (attach 1 7 empty_heap))) 1)
   \<and> filterGraph (attach 2 7 (attach 2 8 (attach 1 7 empty_heap))) 7 = Some 2
   \<and> filterGraph (attach 2 7 (attach 2 8 (attach 1 7 empty_heap))) 9 = None
   \<and> backrefs_held (attach 2 7 (attach 2 8 (attach 1 7 empty_heap)))"
proof -
  have run: "addFilterChain_calls [(1, ChainV 7), (2, ChainV 8), (2, ChainV 7)] empty_heap
      = Inr (attach 2 7 (attach 2 8 (attach 1 7 empty_heap)))" by simp
  have e: "backrefs_held empty_heap" by (simp add: backrefs_held_def empty_heap_def)
  note t = addFilterChain_backref_is_last_graph[OF run]
  from t[THEN conjunct1, rule_format, of 1]
  have l1: "chains (attach 2 7 (attach 2 8 (attach 1 7 empty_heap))) 1 = [7]"
    by (simp add: empty_heap_def)
  from t[THEN conjunct1, rule_format, of 2]
  have l2: "chains (attach 2 7 (attach 2 8 (attach 1 7 empty_heap))) 2 = [8, 7]"
    by (simp add: empty_heap_def)
  from t[THEN conjunct2, THEN conjunct1, rule_format, of 1 "ChainV 7"]
  have a: "7 \<in> set (chains (attach 2 7 (attach 2 8 (attach 1 7 empty_heap))) 1)"
    by simp
  from t[THEN conjunct2, THEN conjunct2, THEN conjunct1, rule_format,
         of "[(1, ChainV 7), (2, ChainV 8)]" 2 7 "[]"]
  have b: "filterGraph (attach 2 7 (attach 2 8 (attach 1 7 empty_heap))) 7 = Some 2" by simp
  from t[THEN conjunct2, THEN conjunct2, THEN conjunct2, THEN conjunct1, rule_format, of 9]
  have n: "filterGraph (attach 2 7 (attach 2 8 (attach 1 7 empty_heap))) 9 = None"
    by (simp add: empty_heap_def)
  from t[THEN conjunct2, THEN conjunct2, THEN conjunct2, THEN conjunct2] e
  have c: "backrefs_held (attach 2 7 (attach 2 8 (attach 1 7 empty_heap)))" by simp
  from run l1 l2 a b n c show ?thesis by simp
qed

text \<open>
  One chain added to two graphs is in the list of both, and the first graph holds a chain
  whose back-reference names the second.
\<close>

theorem chain_in_two_graphs:
  "addFilterChain_calls [(1, ChainV 7), (2, ChainV 7)] empty_heap = Inr (attach 2 7 (attach 1 7 empty_heap))
   \<and> 7 \<in> set (chains (attach 2 7 (attach 1 7 empty_heap)) 1)
   \<and> 7 \<in> set (chains (attach 2 7 (attach 1 7 empty_heap)) 2)
   \<and> filterGraph (attach 2 7 (attach 1 7 empty_heap)) 7 = Some 2"
  by (simp add: attach_def empty_heap_def)

lemma wrap_twice:
  "(case wrap cw x h of Inl e \<Rightarrow> Inl e | Inr (w, h') \<Rightarrow> wrap cw w h') = wrap cw x h"
proof (cases "wrap cw x h")
  case (Inl e)
  then show ?thesis by simp
next
  case (Inr r)
  obtain w h' where r: "r = (w, h')" by (cases r)
  from Inr r wrap_result_graph_or_same[of cw x h w h']
  have "wrap cw w h' = Inr (w, h')" by (auto simp: wrap_def)
  with Inr r show ?thesis by simp
qed

text \<open>
  C10. Wrapping what \<^verbatim>\<open>wrap\<close> returned gives the same value back and leaves the store as
  it is, so \<^verbatim>\<open>wrap(wrap(x))\<close> is \<^verbatim>\<open>wrap(x)\<close>, also when \<^verbatim>\<open>wrap(x)\<close> raises; a value that is
  no graph, chain or node comes back unchanged.
\<close>

theorem wrap_idempotent:
  "(case wrap cw x h of Inl e \<Rightarrow> Inl e | Inr (w, h') \<Rightarrow> wrap cw w h') = wrap cw x h
   \<and> (wrap cw x h = Inr (w, h') \<longrightarrow> wrap cw w h' = Inr (w, h'))
   \<and> (\<not> is_filter x \<longrightarrow> wrap cw x h = Inr (x, h))"
proof (intro conjI impI)
  show "(case wrap cw x h of Inl e \<Rightarrow> Inl e | Inr (w, h') \<Rightarrow> wrap cw w h') = wrap cw x h"
    by (rule wrap_twice)
  show "wrap cw w h' = Inr (w, h')" if "wrap cw x h = Inr (w, h')"
    using wrap_result_graph_or_same[OF that] that by (auto simp: wrap_def)
  show "wrap cw x h = Inr (x, h)" if "\<not> is_filter x"
    using that by (rule wrap_other)
qed

theorem wrap_idempotent_witness:
  "wrap (\<lambda>v s. Inr (v, s)) (ChainV 3) empty_heap = Inr (GraphV 0, attach 0 3 (snd (new_FilterGraph empty_heap)))
   \<and> wrap (\<lambda>v s. Inr (v, s)) (GraphV 0) (attach 0 3 (snd (new_FilterGraph empty_heap)))
       = Inr (GraphV 0, attach 0 3 (snd (new_FilterGraph empty_heap)))
   \<and> \<not> is_filter (StrV ''libx264'')
   \<and> wrap (\<lambda>v s. Inr (v, s)) (StrV ''libx264'') empty_heap = Inr (StrV ''libx264'', empty_heap)"
proof -
  have 1: "wrap (\<lambda>v s. Inr (v, s)) (ChainV 3) empty_heap = Inr (GraphV 0, attach 0 3 (snd (new_FilterGraph empty_heap)))"
    by (simp add: wrap_def new_FilterGraph_def empty_heap_def)
  have 2: "\<not> is_filter (StrV ''libx264'')" by (simp add: is_filter_def)
  from wrap_idempotent[of "\<lambda>v s. Inr (v, s)" "ChainV 3" empty_heap "GraphV 0" "attach 0 3 (snd (new_FilterGraph empty_heap))"] 1
  have 3: "wrap (\<lambda>v s. Inr (v, s)) (GraphV 0) (attach 0 3 (snd (new_FilterGraph empty_heap)))
       = Inr (GraphV 0, attach 0 3 (snd (new_FilterGraph empty_heap)))" by blast
  from wrap_idempotent[of "\<lambda>v s. Inr (v, s)" "StrV ''libx264''" empty_heap] 2
  have 4: "wrap (\<lambda>v s. Inr (v, s)) (StrV ''libx264'') empty_heap = Inr (StrV ''libx264'', empty_heap)" by blast
  from 1 2 3 4 show ?thesis by blast
qed

end
